theory Spec2Isabelle
  imports Main "HOL-Library.Word" "HOL-Library.AList"
begin

unbundle bit_operations_syntax

section \<open>JavaScript strings\<close>

text \<open>
  A JavaScript string is a sequence of UTF-16 code units; \<open>charCodeAt\<close> reads one of
  them. ASCII literals of the source are written with \<open>js\<close>.
\<close>

type_synonym jsstring = "16 word list"

definition js :: "string \<Rightarrow> jsstring" where
  "js s = map (\<lambda>c. of_nat (of_char c)) s"

text \<open>
  \<open>String.prototype.trim\<close> removes the code units that ECMAScript calls WhiteSpace or
  LineTerminator from both ends.
\<close>

definition isWhiteSpace :: "16 word \<Rightarrow> bool" where
  "isWhiteSpace c \<longleftrightarrow>
     c \<in> set [0x0009, 0x000A, 0x000B, 0x000C, 0x000D, 0x0020, 0x00A0, 0x1680,
               0x2000, 0x2001, 0x2002, 0x2003, 0x2004, 0x2005, 0x2006, 0x2007,
               0x2008, 0x2009, 0x200A, 0x2028, 0x2029, 0x202F, 0x205F, 0x3000, 0xFEFF]"

definition trim :: "jsstring \<Rightarrow> jsstring" where
  "trim s = rev (dropWhile isWhiteSpace (rev (dropWhile isWhiteSpace s)))"

text \<open>
  \<open>toLowerCase\<close> and \<open>toUpperCase\<close> follow the Unicode case mappings of the
  platform; the functions below take them as parameters, so every theorem holds for the
  real mappings. \<open>ascii_lower\<close> and \<open>ascii_upper\<close> are their restrictions to ASCII
  letters, used to run the definitions on concrete inputs.
\<close>

definition ascii_lower :: "jsstring \<Rightarrow> jsstring" where
  "ascii_lower s = map (\<lambda>c. if 65 \<le> c \<and> c \<le> 90 then c + 32 else c) s"

definition ascii_upper :: "jsstring \<Rightarrow> jsstring" where
  "ascii_upper s = map (\<lambda>c. if 97 \<le> c \<and> c \<le> 122 then c - 32 else c) s"

text \<open>\<open>Number.prototype.toString\<close> on an integer: decimal digits, \<open>-\<close> in front of a negative one.\<close>

fun digits10 :: "nat \<Rightarrow> jsstring" where
  "digits10 n =
     (if n < 10 then [of_nat (48 + n)]
      else digits10 (n div 10) @ [of_nat (48 + n mod 10)])"

declare digits10.simps [simp del]

definition toString :: "int \<Rightarrow> jsstring" where
  "toString i = (if i < 0 then 45 # digits10 (nat (- i)) else digits10 (nat i))"

section \<open>dataService: hashing\<close>

text \<open>
  \<^verbatim>\<open>
  let hash = 0;
  for (let i = 0; i < s.length; i++) {
    const char = s.charCodeAt(i);
    hash = (hash << 5) - hash + char;
    hash |= 0; // Convert to 32bit integer
  }
  return hash.toString();
  \<close>
  \<open>hash\<close> is a 32-bit integer after every round (\<open>|= 0\<close>); the intermediate sum is
  exact in a double, so the round is arithmetic modulo \<open>2 ^ 32\<close>, read as signed at
  the end.
\<close>

fun simpleHash_loop :: "32 word \<Rightarrow> jsstring \<Rightarrow> 32 word" where
  "simpleHash_loop hash [] = hash"
| "simpleHash_loop hash (char # s) = simpleHash_loop (push_bit 5 hash - hash + ucast char) s"

definition simpleHash :: "jsstring \<Rightarrow> jsstring" where
  "simpleHash s = toString (sint (simpleHash_loop 0 s))"

section \<open>dataService: the stores\<close>

record User =
  name :: jsstring
  passwordHash :: jsstring

datatype sender = USER | AI

record Message =
  sender :: sender
  "text" :: jsstring

text \<open>
  A value that \<open>JSON.parse\<close> returns. A number is held as the string that JavaScript
  prints for it (\<open>0\<close> for both zeros, \<open>Infinity\<close> for an overflow): the code tests a
  number for truth, prints it and stores it, and does nothing else with it. An object is
  the list of its own properties. The type \<open>FinalSummary\<close> of the source is an
  annotation on such a value that nothing checks; \<open>FinalSummary_of\<close> builds a value of
  that shape.
\<close>

datatype json =
    JNull
  | JBool bool
  | JNumber jsstring
  | JString jsstring
  | JArray "json list"
  | JObject "(jsstring \<times> json) list"

definition FinalSummary_of :: "jsstring \<Rightarrow> jsstring \<Rightarrow> json" where
  "FinalSummary_of mood message = JObject [(js ''mood'', JString mood), (js ''message'', JString message)]"

text \<open>What a condition such as \<open>finalSummary ? ... : ...\<close> takes for true.\<close>

fun truthy :: "json \<Rightarrow> bool" where
  "truthy JNull = False"
| "truthy (JBool b) = b"
| "truthy (JNumber n) = (n \<noteq> js ''0'' \<and> n \<noteq> js ''NaN'')"
| "truthy (JString s) = (s \<noteq> [])"
| "truthy (JArray xs) = True"
| "truthy (JObject properties) = True"

text \<open>
  \<open>JSON.parse (JSON.stringify v)\<close>, what is read back after \<open>v\<close> was written to the
  store: a number that is not finite comes back as \<open>null\<close>.
\<close>

fun stored :: "json \<Rightarrow> json" where
  "stored JNull = JNull"
| "stored (JBool b) = JBool b"
| "stored (JNumber n) =
     (if n = js ''Infinity'' \<or> n = js ''-Infinity'' \<or> n = js ''NaN'' then JNull else JNumber n)"
| "stored (JString s) = JString s"
| "stored (JArray xs) = JArray (map stored xs)"
| "stored (JObject properties) = JObject (map (\<lambda>(k, v). (k, stored v)) properties)"

text \<open>
  The fields \<open>id\<close> and \<open>messages\<close> of a Conversation are \<open>conv_id\<close> and
  \<open>conv_messages\<close> here; \<open>timestamp\<close> is the integer that \<open>Date.now()\<close> returned.
\<close>

record Conversation =
  conv_id :: jsstring
  timestamp :: int
  conv_messages :: "Message list"
  summary :: json

datatype MoodMeterQuadrant = YELLOW | RED | BLUE | GREEN


text \<open>
  The browser's \<open>localStorage\<close> (keys \<open>users\<close>, \<open>conversations\<close>, \<open>gemini_api_key\<close>)
  and \<open>sessionStorage\<close> (key \<open>currentUser\<close>), with the JSON encoding of the values left
  out, except that the summary of a conversation is held as it reads back from the store
  (\<open>stored\<close>). A missing \<open>users\<close> key reads as the empty list and a missing \<open>conversations\<close>
  key as the empty object. The \<open>conversations\<close> object is an association list from the
  account name to that account's conversations, in insertion order; \<open>network\<close> lists the
  requests sent to the text-generation provider so far. The list holds the own properties
  of the object; what an object inherits is in \<open>Object_prototype_properties\<close> below. Keys
  that look like array indices are enumerated before the others, which is left out: the
  statements below do not depend on the order of the keys. Writing to the storage is
  taken to succeed.
\<close>

datatype role = Role_user | Role_model

datatype request =
    GenerateChat "(role \<times> jsstring) list"
  | GenerateFinalChat "(role \<times> jsstring) list"
  | GenerateSummary "Message list"
  | GenerateQuadrant jsstring

record world =
  users :: "User list"
  conversations :: "(jsstring \<times> Conversation list) list"
  gemini_api_key :: "jsstring option"
  currentUser :: "User option"
  network :: "request list"

text \<open>
  The errors thrown by the source are \<open>Error\<close> objects told apart by their message:
  \<open>DuplicateName\<close> is thrown by \<open>signupUser\<close>, \<open>InvalidCredentials\<close> by \<open>loginUser\<close>,
  \<open>CredentialMissing\<close> by \<open>getAI\<close>, and the next three by the \<open>catch\<close> blocks of
  \<open>getChatResponse\<close>, \<open>getFinalChatResponse\<close> and \<open>getFinalSummary\<close>. \<open>TypeError\<close>
  is the error of the language itself: spreading a value that is not iterable, reading a
  property of \<open>null\<close>, printing an object that cannot be printed.
\<close>

datatype error =
    DuplicateName
  | InvalidCredentials
  | CredentialMissing
  | ChatResponseError
  | FinalChatResponseError
  | FinalSummaryError
  | TypeError

section \<open>dataService: user management\<close>

definition signupUser ::
  "(jsstring \<Rightarrow> jsstring) \<Rightarrow> jsstring \<Rightarrow> jsstring \<Rightarrow> world \<Rightarrow> error + (User \<times> world)" where
  "signupUser toLowerCase n password st =
     (if list_ex (\<lambda>user. toLowerCase (name user) = toLowerCase n) (users st)
      then Inl DuplicateName
      else let newUser = \<lparr>name = n, passwordHash = simpleHash password\<rparr>
           in Inr (newUser, st\<lparr>users := users st @ [newUser]\<rparr>))"

definition loginUser ::
  "(jsstring \<Rightarrow> jsstring) \<Rightarrow> jsstring \<Rightarrow> jsstring \<Rightarrow> world \<Rightarrow> error + (User \<times> world)" where
  "loginUser toLowerCase n password st =
     (case find (\<lambda>u. toLowerCase (name u) = toLowerCase n) (users st) of
        None \<Rightarrow> Inl InvalidCredentials
      | Some user \<Rightarrow>
          if passwordHash user \<noteq> simpleHash password then Inl InvalidCredentials
          else Inr (user, st\<lparr>currentUser := Some user\<rparr>))"

text \<open>\<open>Array.prototype.findIndex\<close>, with \<open>None\<close> for the result \<open>-1\<close>.\<close>

fun findIndex :: "('a \<Rightarrow> bool) \<Rightarrow> 'a list \<Rightarrow> nat option" where
  "findIndex P [] = None"
| "findIndex P (x # xs) = (if P x then Some 0 else map_option Suc (findIndex P xs))"

definition resetStudentPassword :: "jsstring \<Rightarrow> world \<Rightarrow> world" where
  "resetStudentPassword n st =
     (case findIndex (\<lambda>u. name u = n) (users st) of
        None \<Rightarrow> st
      | Some userIndex \<Rightarrow>
          st\<lparr>users := (users st)
                 [userIndex := (users st ! userIndex)\<lparr>passwordHash := simpleHash (js ''0000'')\<rparr>]\<rparr>)"

text \<open>
  The invariant of the \<open>users\<close> store: no two accounts have the same name up to case.
\<close>

definition users_inv :: "(jsstring \<Rightarrow> jsstring) \<Rightarrow> User list \<Rightarrow> bool" where
  "users_inv toLowerCase us = distinct (map (\<lambda>u. toLowerCase (name u)) us)"

text \<open>
  Every store of accounts built from the empty one by signups and password resets
  satisfies the invariant.
\<close>

inductive reachable_users :: "(jsstring \<Rightarrow> jsstring) \<Rightarrow> world \<Rightarrow> bool"
  for lc :: "jsstring \<Rightarrow> jsstring" where
  start: "users st = [] \<Longrightarrow> reachable_users lc st"
| signup: "reachable_users lc st \<Longrightarrow> signupUser lc n p st = Inr (u, st') \<Longrightarrow> reachable_users lc st'"
| reset: "reachable_users lc st \<Longrightarrow> reachable_users lc (resetStudentPassword n st)"

text \<open>
  What can happen to the stores after a given moment: signups, password resets, and
  everything that leaves the accounts as they are (a login, a logout, a chat, the
  dashboard, a change of the API key).
\<close>

inductive subsequent :: "(jsstring \<Rightarrow> jsstring) \<Rightarrow> world \<Rightarrow> world \<Rightarrow> bool"
  for lc :: "jsstring \<Rightarrow> jsstring" where
  now: "subsequent lc st st"
| signup: "subsequent lc st st1 \<Longrightarrow> signupUser lc n p st1 = Inr (u, st2) \<Longrightarrow> subsequent lc st st2"
| reset: "subsequent lc st st1 \<Longrightarrow> subsequent lc st (resetStudentPassword n st1)"
| other: "subsequent lc st st1 \<Longrightarrow> users st2 = users st1 \<Longrightarrow> subsequent lc st st2"

section \<open>dataService: conversation management\<close>

text \<open>
  The properties that the object read from the store inherits from \<open>Object.prototype\<close>;
  each of them is a function or an object, so none is iterable and each is taken for true.
\<close>

definition Object_prototype_properties :: "jsstring list" where
  "Object_prototype_properties =
     map js [''constructor'', ''__defineGetter__'', ''__defineSetter__'', ''hasOwnProperty'',
             ''__lookupGetter__'', ''__lookupSetter__'', ''isPrototypeOf'',
             ''propertyIsEnumerable'', ''toString'', ''valueOf'', ''__proto__'',
             ''toLocaleString'']"

text \<open>
  \<open>allConvos[userName] || []\<close> reads the account's own list, or else what the object
  inherits under that name, or else the empty list; spreading an inherited property
  throws. The assignment \<open>allConvos[userName] = ...\<close> replaces the value of a key that
  exists and adds a missing key behind the others. The conversation is read back from the
  store as \<open>JSON.stringify\<close> wrote it.
\<close>

definition saveConversation :: "jsstring \<Rightarrow> Conversation \<Rightarrow> world \<Rightarrow> error + world" where
  "saveConversation userName conversation w =
     (case map_of (conversations w) userName of
        Some userConvos \<Rightarrow>
          Inr (w\<lparr>conversations :=
                 AList.update userName
                   (userConvos @ [conversation\<lparr>summary := stored (summary conversation)\<rparr>])
                   (conversations w)\<rparr>)
      | None \<Rightarrow>
          if userName \<in> set Object_prototype_properties then Inl TypeError
          else Inr (w\<lparr>conversations :=
                      AList.update userName
                        [conversation\<lparr>summary := stored (summary conversation)\<rparr>]
                        (conversations w)\<rparr>))"

section \<open>geminiService\<close>

text \<open>
  \<open>getApiKey\<close> returns \<open>null\<close> when no key is stored; \<open>getAI\<close> throws when the key
  is \<open>null\<close> or the empty string.
\<close>

definition getAI :: "world \<Rightarrow> error + jsstring" where
  "getAI w =
     (case gemini_api_key w of
        None \<Rightarrow> Inl CredentialMissing
      | Some apiKey \<Rightarrow> if apiKey = [] then Inl CredentialMissing else Inr apiKey)"

text \<open>
  The provider is outside the program: a \<open>provider\<close> gives, for a request, the
  \<open>response.text\<close> that comes back, or \<open>None\<close> when \<open>generateContent\<close> throws or
  the response has no text (reading \<open>response.text.trim()\<close> then throws inside the same
  \<open>try\<close> block). A request is named by the operation that builds it, which fixes the
  model and the instruction, and carries the part that varies.
\<close>

type_synonym provider = "request \<Rightarrow> jsstring option"

definition generateContent :: "provider \<Rightarrow> request \<Rightarrow> world \<Rightarrow> jsstring option \<times> world" where
  "generateContent prov r w = (prov r, w\<lparr>network := network w @ [r]\<rparr>)"

definition buildChatHistory :: "Message list \<Rightarrow> (role \<times> jsstring) list" where
  "buildChatHistory history =
     map (\<lambda>message. (if sender message = USER then Role_user else Role_model, text message)) history"

definition getChatResponse :: "provider \<Rightarrow> Message list \<Rightarrow> world \<Rightarrow> (error + jsstring) \<times> world" where
  "getChatResponse prov history w =
     (case getAI w of
        Inl e \<Rightarrow> (Inl e, w)
      | Inr ai \<Rightarrow>
          (case generateContent prov (GenerateChat (buildChatHistory history)) w of
             (None, w') \<Rightarrow> (Inl ChatResponseError, w')
           | (Some response, w') \<Rightarrow> (Inr (trim response), w')))"

definition getFinalChatResponse :: "provider \<Rightarrow> Message list \<Rightarrow> world \<Rightarrow> (error + jsstring) \<times> world" where
  "getFinalChatResponse prov history w =
     (case getAI w of
        Inl e \<Rightarrow> (Inl e, w)
      | Inr ai \<Rightarrow>
          (case generateContent prov (GenerateFinalChat (buildChatHistory history)) w of
             (None, w') \<Rightarrow> (Inl FinalChatResponseError, w')
           | (Some response, w') \<Rightarrow> (Inr (trim response), w')))"

text \<open>
  \<open>JSON.parse\<close> is a parameter: \<open>None\<close> when it throws, otherwise the value parsed,
  whatever it is: the cast \<open>as FinalSummary\<close> checks nothing.
\<close>

definition getFinalSummary ::
  "(jsstring \<Rightarrow> json option) \<Rightarrow> provider \<Rightarrow> Message list \<Rightarrow> world
     \<Rightarrow> (error + json) \<times> world" where
  "getFinalSummary JSON_parse prov history w =
     (case getAI w of
        Inl e \<Rightarrow> (Inl e, w)
      | Inr ai \<Rightarrow>
          (case generateContent prov (GenerateSummary history) w of
             (None, w') \<Rightarrow> (Inl FinalSummaryError, w')
           | (Some response, w') \<Rightarrow>
               (case JSON_parse (trim response) of
                  None \<Rightarrow> (Inl FinalSummaryError, w')
                | Some parsed \<Rightarrow> (Inr parsed, w'))))"

text \<open>The test \<open>['YELLOW', 'RED', 'BLUE', 'GREEN'].includes(quadrant)\<close> and the cast that follows it.\<close>

definition asMoodMeterQuadrant :: "jsstring \<Rightarrow> MoodMeterQuadrant option" where
  "asMoodMeterQuadrant label =
     (if label = js ''YELLOW'' then Some YELLOW
      else if label = js ''RED'' then Some RED
      else if label = js ''BLUE'' then Some BLUE
      else if label = js ''GREEN'' then Some GREEN
      else None)"

definition getMoodMeterQuadrant ::
  "(jsstring \<Rightarrow> jsstring) \<Rightarrow> provider \<Rightarrow> jsstring \<Rightarrow> world
     \<Rightarrow> (error + MoodMeterQuadrant) \<times> world" where
  "getMoodMeterQuadrant toUpperCase prov mood_text w =
     (case getAI w of
        Inl e \<Rightarrow> (Inl e, w)
      | Inr ai \<Rightarrow>
          (case generateContent prov (GenerateQuadrant mood_text) w of
             (None, w') \<Rightarrow> (Inr BLUE, w')
           | (Some response, w') \<Rightarrow>
               (case asMoodMeterQuadrant (toUpperCase (trim response)) of
                  Some q \<Rightarrow> (Inr q, w')
                | None \<Rightarrow> (Inr BLUE, w'))))"

section \<open>StudentView: the chat\<close>

definition MAX_TURNS :: nat where
  "MAX_TURNS = 5"

text \<open>
  The state of the \<open>ChatView\<close> component. The \<open>error\<close> state of the source is a
  string, empty when there is no error; here it is \<open>None\<close> or the error caught. The
  \<open>finalSummary\<close> state is \<open>null\<close> or a value: here \<open>None\<close> or \<open>Some\<close> of a value other
  than \<open>null\<close>, and \<open>nullable\<close> sets it.
\<close>

record ChatView =
  messages :: "Message list"
  userInput :: jsstring
  isAITyping :: bool
  turnCount :: nat
  isConversationOver :: bool
  finalSummary :: "json option"
  error :: "error option"

definition nullable :: "json \<Rightarrow> json option" where
  "nullable v = (if v = JNull then None else Some v)"

text \<open>The greeting that the effect on \<open>user.name\<close> puts into \<open>messages\<close> after mounting.\<close>

definition greeting :: "jsstring \<Rightarrow> Message" where
  "greeting userName =
     \<lparr>sender = AI,
      text = [0xC548, 0xB155, 0xD558, 0xC138, 0xC694, 0x002C, 0x0020] @ userName @
        [0xB2D8, 0x0021, 0x0020, 0xC800, 0xB294, 0x0020, 0xB530, 0xB73B, 0xD55C, 0x0020,
         0xB9C8, 0xC74C, 0x0020, 0xCF54, 0xCE58, 0xC608, 0xC694, 0x002E, 0x000A, 0xC624,
         0xB298, 0x0020, 0xC5B4, 0xB5A4, 0x0020, 0xC77C, 0xC774, 0x0020, 0xC788, 0xC5C8,
         0xB098, 0xC694, 0x003F, 0x0020, 0xD3B8, 0xD558, 0xAC8C, 0x0020, 0xC774, 0xC57C,
         0xAE30, 0xD574, 0xC8FC, 0xC138, 0xC694, 0x002E]\<rparr>"

definition initialChatView :: "User \<Rightarrow> ChatView" where
  "initialChatView usr =
     \<lparr>messages = [greeting (name usr)], userInput = [], isAITyping = False, turnCount = 0,
      isConversationOver = False, finalSummary = None, error = None\<rparr>"

text \<open>
  One call of \<open>handleSendMessage\<close>, from the state of the component and the stores to
  the state and the stores when the promise has settled. \<open>now_id\<close> and \<open>now_ts\<close> are
  the two readings of \<open>Date.now()\<close>. When \<open>saveConversation\<close> throws, the summary
  has been set already and the \<open>catch\<close> block sets the error.
\<close>

definition handleSendMessage ::
  "(jsstring \<Rightarrow> json option) \<Rightarrow> provider \<Rightarrow> int \<Rightarrow> int \<Rightarrow> User
     \<Rightarrow> ChatView \<times> world \<Rightarrow> ChatView \<times> world" where
  "handleSendMessage JSON_parse prov now_id now_ts usr cw =
     (case cw of (c, w) \<Rightarrow>
      if trim (userInput c) = [] \<or> isAITyping c \<or> isConversationOver c then (c, w)
      else
        let newUserMessage = \<lparr>sender = USER, text = userInput c\<rparr>;
            newHistory = messages c @ [newUserMessage];
            c1 = c\<lparr>error := None, messages := newHistory, userInput := [], isAITyping := True\<rparr>;
            newTurnCount = turnCount c + 1
        in case (if newTurnCount = MAX_TURNS then getFinalChatResponse prov newHistory w
                 else getChatResponse prov newHistory w) of
             (Inl err, w1) \<Rightarrow> (c1\<lparr>error := Some err, isAITyping := False\<rparr>, w1)
           | (Inr aiResponseText, w1) \<Rightarrow>
               let newAiMessage = \<lparr>sender = AI, text = aiResponseText\<rparr>;
                   finalHistory = newHistory @ [newAiMessage];
                   c2 = c1\<lparr>messages := finalHistory, turnCount := newTurnCount\<rparr>
               in if newTurnCount \<ge> MAX_TURNS then
                    let c3 = c2\<lparr>isConversationOver := True, isAITyping := True\<rparr>
                    in case getFinalSummary JSON_parse prov finalHistory w1 of
                         (Inl err, w2) \<Rightarrow> (c3\<lparr>error := Some err, isAITyping := False\<rparr>, w2)
                       | (Inr summ, w2) \<Rightarrow>
                           let c4 = c3\<lparr>finalSummary := nullable summ\<rparr>
                           in case saveConversation (name usr)
                                \<lparr>conv_id = js ''conv_'' @ toString now_id, timestamp = now_ts,
                                 conv_messages = finalHistory, summary = summ\<rparr> w2 of
                                Inl err \<Rightarrow> (c4\<lparr>error := Some err, isAITyping := False\<rparr>, w2)
                              | Inr w3 \<Rightarrow> (c4\<lparr>isAITyping := False\<rparr>, w3)
                  else (c2\<lparr>isAITyping := False\<rparr>, w1))"

text \<open>
  The user types into the input field, which is disabled while the coach is typing or
  when the conversation is over, and sends. A session of the chat is a sequence of such
  events, each with the provider's behaviour and the clock at that moment.
\<close>

definition setUserInput :: "jsstring \<Rightarrow> ChatView \<Rightarrow> ChatView" where
  "setUserInput v c = (if isAITyping c \<or> isConversationOver c then c else c\<lparr>userInput := v\<rparr>)"

record send_event =
  typed :: jsstring
  answers :: provider
  now_id :: int
  now_ts :: int

definition send ::
  "(jsstring \<Rightarrow> json option) \<Rightarrow> User \<Rightarrow> ChatView \<times> world \<Rightarrow> send_event
     \<Rightarrow> ChatView \<times> world" where
  "send JSON_parse usr cw ev =
     handleSendMessage JSON_parse (answers ev) (now_id ev) (now_ts ev) usr
       (setUserInput (typed ev) (fst cw), snd cw)"

definition session ::
  "(jsstring \<Rightarrow> json option) \<Rightarrow> User \<Rightarrow> send_event list \<Rightarrow> world
     \<Rightarrow> ChatView \<times> world" where
  "session JSON_parse usr evs w = foldl (send JSON_parse usr) (initialChatView usr, w) evs"

text \<open>Counting in a message history: the messages of a sender, and the turn pairs (a user
  message directly followed by a message of the coach).\<close>

definition count_sender :: "sender \<Rightarrow> Message list \<Rightarrow> nat" where
  "count_sender s ms = length (filter (\<lambda>m. sender m = s) ms)"

fun turn_pairs :: "Message list \<Rightarrow> nat" where
  "turn_pairs (a # b # ms) =
     (if sender a = USER \<and> sender b = AI then 1 else 0) + turn_pairs (b # ms)"
| "turn_pairs ms = 0"

fun alternates :: "sender \<Rightarrow> Message list \<Rightarrow> bool" where
  "alternates s [] = True"
| "alternates s (m # ms) = (sender m = s \<and> alternates (if s = USER then AI else USER) ms)"

section \<open>TeacherView: the mood dashboard\<close>
















section \<open>Notions used in the statements about the chat\<close>

text \<open>
  \<open>inProgress\<close> is the case in which the guard at the head of \<open>handleSendMessage\<close> lets
  the input through; \<open>userMessage\<close> is the message built from the input, and \<open>chatCall\<close>
  the gateway operation chosen for the turn, applied to the history with that message.
\<close>

definition inProgress :: "ChatView \<Rightarrow> bool" where
  "inProgress c \<longleftrightarrow> trim (userInput c) \<noteq> [] \<and> \<not> isAITyping c \<and> \<not> isConversationOver c"

definition userMessage :: "ChatView \<Rightarrow> Message" where
  "userMessage c = \<lparr>sender = USER, text = userInput c\<rparr>"

definition chatCall :: "provider \<Rightarrow> ChatView \<Rightarrow> world \<Rightarrow> (error + jsstring) \<times> world" where
  "chatCall prov c w =
     (if turnCount c + 1 = MAX_TURNS
      then getFinalChatResponse prov (messages c @ [userMessage c]) w
      else getChatResponse prov (messages c @ [userMessage c]) w)"

section \<open>Notions used in the statements about sessions\<close>

fun no_adjacent_ai :: "Message list \<Rightarrow> bool" where
  "no_adjacent_ai (a # b # ms) = (\<not> (sender a = AI \<and> sender b = AI) \<and> no_adjacent_ai (b # ms))"
| "no_adjacent_ai ms = True"

text \<open>
  A send has failed when the input was let through and the gateway call of the turn
  threw; \<open>failed_sends\<close> counts the failed sends of a sequence of events.
\<close>

definition send_failed :: "ChatView \<times> world \<Rightarrow> send_event \<Rightarrow> bool" where
  "send_failed cw ev =
     (let c = setUserInput (typed ev) (fst cw)
      in inProgress c \<and> isl (fst (chatCall (answers ev) c (snd cw))))"

fun failed_sends ::
  "(jsstring \<Rightarrow> json option) \<Rightarrow> User \<Rightarrow> ChatView \<times> world \<Rightarrow> send_event list \<Rightarrow> nat" where
  "failed_sends P usr cw [] = 0"
| "failed_sends P usr cw (ev # evs) =
     (if send_failed cw ev then 1 else 0) + failed_sends P usr (send P usr cw ev) evs"

text \<open>All conversations of the store, of every account.\<close>

definition all_conversations :: "world \<Rightarrow> Conversation list" where
  "all_conversations w = concat (map snd (conversations w))"

text \<open>
  The view is Complete when it shows the summary, which it does when \<open>finalSummary\<close> is
  a value that the condition \<open>finalSummary ? ... : ...\<close> takes for true.
\<close>

definition Complete :: "ChatView \<Rightarrow> bool" where
  "Complete c = (case finalSummary c of None \<Rightarrow> False | Some s \<Rightarrow> truthy s)"

text \<open>
  The session of the view \<open>c\<close>, which started on the stores \<open>w0\<close>, has written its
  conversation: the store of conversations is the one found at the start after one call
  of \<open>saveConversation\<close> that returned, under the account name, with the history of the
  view as messages and with the summary that the view holds.
\<close>

definition written :: "User \<Rightarrow> world \<Rightarrow> ChatView \<Rightarrow> world \<Rightarrow> bool" where
  "written usr w0 c w \<longleftrightarrow>
     (\<exists>i t s w'. finalSummary c = nullable s
        \<and> saveConversation (name usr)
             \<lparr>conv_id = i, timestamp = t, conv_messages = messages c, summary = s\<rparr> w0 = Inr w'
        \<and> conversations w = conversations w')"

text \<open>
  The invariant of a chat session that started on the stores \<open>w0\<close>, after \<open>k\<close> failed
  sends.
\<close>

definition chat_inv :: "User \<Rightarrow> world \<Rightarrow> nat \<Rightarrow> ChatView \<times> world \<Rightarrow> bool" where
  "chat_inv usr w0 k cw =
     (case cw of (c, w) \<Rightarrow>
        \<not> isAITyping c \<and> turnCount c \<le> MAX_TURNS
        \<and> (isConversationOver c \<longleftrightarrow> turnCount c = MAX_TURNS)
        \<and> messages c \<noteq> [] \<and> hd (messages c) = greeting (name usr)
        \<and> count_sender AI (messages c) = turnCount c + 1
        \<and> count_sender USER (messages c) = turnCount c + k
        \<and> turn_pairs (messages c) = turnCount c
        \<and> no_adjacent_ai (messages c)
        \<and> (k = 0 \<longrightarrow> alternates AI (messages c))
        \<and> (k = 0 \<or> isConversationOver c \<longrightarrow> sender (last (messages c)) = AI)
        \<and> users w = users w0
        \<and> (turnCount c < MAX_TURNS \<longrightarrow>
              finalSummary c = None \<and> conversations w = conversations w0)
        \<and> (conversations w = conversations w0 \<or> written usr w0 c w)
        \<and> (turnCount c = MAX_TURNS \<longrightarrow> error c \<noteq> None \<or> written usr w0 c w))"

text \<open>
  The shape of a stored history: it starts and ends with a message of the coach, holds
  \<open>MAX_TURNS + 1\<close> messages of the coach, no two of them adjacent, and at least
  \<open>MAX_TURNS\<close> user messages; with exactly \<open>2 * MAX_TURNS + 1\<close> entries it alternates.
\<close>

definition well_formed_history :: "Message list \<Rightarrow> bool" where
  "well_formed_history ms \<longleftrightarrow>
     ms \<noteq> [] \<and> sender (hd ms) = AI \<and> sender (last ms) = AI
     \<and> count_sender AI ms = MAX_TURNS + 1 \<and> MAX_TURNS \<le> count_sender USER ms
     \<and> no_adjacent_ai ms
     \<and> (length ms = 2 * MAX_TURNS + 1 \<longrightarrow> alternates AI ms)"

section \<open>Notions used in the statements about the dashboard\<close>







section \<open>Example inputs\<close>

text \<open>
  Concrete stores, providers and sessions on which the definitions are run. A provider
  that says a fixed text answers every request with it; \<open>provider_down\<close> fails on every
  request, \<open>provider_no_summary\<close> only on the request for the summary. \<open>provider_ok\<close>
  answers the request for the summary with a JSON text of the schema asked for, and
  \<open>provider_null_summary\<close> answers it with the JSON text \<open>null\<close>.
\<close>

definition example_world :: world where
  "example_world =
     \<lparr>users = [\<lparr>name = js ''Mina'', passwordHash = simpleHash (js ''1234'')\<rparr>],
      conversations = [], gemini_api_key = Some (js ''key''), currentUser = None, network = []\<rparr>"

definition example_joon :: User where
  "example_joon = \<lparr>name = js ''Joon'', passwordHash = simpleHash (js ''4321'')\<rparr>"

definition example_constructor :: User where
  "example_constructor = \<lparr>name = js ''constructor'', passwordHash = simpleHash (js ''1234'')\<rparr>"

definition example_ara :: User where
  "example_ara = \<lparr>name = js ''Ara'', passwordHash = simpleHash (js ''5678'')\<rparr>"

definition example_class :: world where
  "example_class =
     \<lparr>users = [\<lparr>name = js ''Mina'', passwordHash = simpleHash (js ''1234'')\<rparr>,
               \<lparr>name = js ''Joon'', passwordHash = simpleHash (js ''4321'')\<rparr>],
      conversations = [], gemini_api_key = Some (js ''key''), currentUser = None, network = []\<rparr>"

text \<open>
  The stores some time after Joon has signed up in \<open>example_world\<close>: Ara has signed up,
  the teacher has reset the password of Mina, and Ara is logged in.
\<close>

definition example_later :: world where
  "example_later =
     \<lparr>users = [\<lparr>name = js ''Mina'', passwordHash = simpleHash (js ''0000'')\<rparr>,
               example_joon, example_ara],
      conversations = [], gemini_api_key = Some (js ''key''), currentUser = Some example_ara,
      network = []\<rparr>"

definition example_no_key :: world where
  "example_no_key = example_world\<lparr>gemini_api_key := None\<rparr>"

definition provider_says :: "jsstring \<Rightarrow> provider" where
  "provider_says response r = Some response"

definition provider_down :: provider where
  "provider_down r = None"

definition example_user :: User where
  "example_user = \<lparr>name = js ''Mina'', passwordHash = simpleHash (js ''1234'')\<rparr>"

definition example_summary_text :: jsstring where
  \<open>example_summary_text = js ''{"mood":"calm","message":"Well done"}''\<close>

text \<open>
  \<open>JSON.parse\<close> on the texts that the example providers return: the summary text is
  parsed to its object, \<open>null\<close> to \<open>null\<close>, and on the other texts (\<open>Tell me more\<close>,
  \<open>Bye\<close>, the empty text), which are no JSON, \<open>JSON.parse\<close> throws. The examples apply
  it to these texts only.
\<close>

definition example_JSON_parse :: "jsstring \<Rightarrow> json option" where
  "example_JSON_parse s =
     (if s = example_summary_text then Some (FinalSummary_of (js ''calm'') (js ''Well done''))
      else if s = js ''null'' then Some JNull
      else None)"

definition example_typing :: "nat \<Rightarrow> ChatView" where
  "example_typing n =
     \<lparr>messages = [greeting (js ''Mina'')], userInput = js ''I am sad'', isAITyping = False,
      turnCount = n, isConversationOver = False, finalSummary = None, error = None\<rparr>"

definition example_send :: "provider \<Rightarrow> send_event" where
  "example_send prov =
     \<lparr>typed = js ''I am sad'', answers = prov, now_id = 1700000000000, now_ts = 1700000000001\<rparr>"

definition provider_no_summary :: provider where
  "provider_no_summary r =
     (case r of GenerateSummary history \<Rightarrow> None | _ \<Rightarrow> Some (js ''Tell me more''))"

definition provider_ok :: provider where
  "provider_ok r =
     (case r of GenerateSummary history \<Rightarrow> Some example_summary_text
      | _ \<Rightarrow> Some (js ''Tell me more''))"

definition provider_null_summary :: provider where
  "provider_null_summary r =
     (case r of GenerateSummary history \<Rightarrow> Some (js ''null'') | _ \<Rightarrow> Some (js ''Tell me more''))"

definition example_session :: "send_event list" where
  "example_session =
     [example_send provider_ok, example_send provider_ok, example_send provider_ok,
      example_send provider_ok, example_send provider_ok]"

definition example_session_no_summary :: "send_event list" where
  "example_session_no_summary =
     [example_send provider_no_summary, example_send provider_no_summary,
      example_send provider_no_summary, example_send provider_no_summary,
      example_send provider_no_summary]"








section \<open>Evaluation lemmas\<close>

lemma digits10_small: "n < 10 \<Longrightarrow> digits10 n = [of_nat (48 + n)]"
  by (simp add: digits10.simps)

lemma digits10_large:
  "\<not> n < 10 \<Longrightarrow> digits10 n = digits10 (n div 10) @ [of_nat (48 + n mod 10)]"
  by (subst digits10.simps) simp

lemmas digits10_eval = digits10_small digits10_large

lemma simpleHash_0000: "simpleHash (js ''0000'') = js ''1477632''"
  by (simp add: simpleHash_def js_def toString_def digits10_eval)

section \<open>Properties of user management\<close>

lemma findIndex_None: "findIndex P xs = None \<longleftrightarrow> (\<forall>x\<in>set xs. \<not> P x)"
  by (induction xs) auto

lemma findIndex_Some:
  "findIndex P xs = Some i \<Longrightarrow> i < length xs \<and> P (xs ! i) \<and> (\<forall>j<i. \<not> P (xs ! j))"
proof (induction xs arbitrary: i)
  case Nil
  then show ?case by simp
next
  case (Cons x xs)
  show ?case
  proof (cases "P x")
    case True
    with Cons.prems show ?thesis by simp
  next
    case False
    with Cons.prems obtain k where k: "findIndex P xs = Some k" "i = Suc k"
      by auto
    from Cons.IH [OF k(1)] False k(2) show ?thesis
      by (auto simp: less_Suc_eq_0_disj)
  qed
qed

lemma find_append_last:
  "\<forall>x\<in>set xs. \<not> P x \<Longrightarrow> P y \<Longrightarrow> find P (xs @ [y]) = Some y"
  by (induction xs) auto

lemma find_distinct_key:
  "distinct (map f xs) \<Longrightarrow> x \<in> set xs \<Longrightarrow> find (\<lambda>y. f y = f x) xs = Some x"
proof (induction xs)
  case Nil
  then show ?case by simp
next
  case (Cons a xs)
  then show ?case by (cases "a = x") (auto simp: image_iff)
qed

lemma signupUser_preserves_inv:
  "users_inv lc (users st) \<Longrightarrow> signupUser lc n p st = Inr (u, st') \<Longrightarrow> users_inv lc (users st')"
proof -
  assume inv: "users_inv lc (users st)" and ok: "signupUser lc n p st = Inr (u, st')"
  from ok have fresh: "\<forall>user\<in>set (users st). lc (name user) \<noteq> lc n"
    and st': "users st' = users st @ [\<lparr>name = n, passwordHash = simpleHash p\<rparr>]"
    by (auto simp: signupUser_def list_ex_iff Let_def split: if_splits)
  from fresh have "lc n \<notin> (\<lambda>u. lc (name u)) ` set (users st)"
    by (auto simp: image_iff)
  with inv st' show ?thesis
    by (simp add: users_inv_def)
qed

lemma map_key_update_hash:
  "map (\<lambda>u. lc (name u)) (us[i := (us ! i)\<lparr>passwordHash := h\<rparr>]) = map (\<lambda>u. lc (name u)) us"
proof (cases "i < length us")
  case True
  then show ?thesis
    by (intro nth_equalityI) (auto simp: nth_list_update)
next
  case False
  then show ?thesis by (simp add: list_update_beyond)
qed

lemma resetStudentPassword_preserves_inv:
  "users_inv lc (users st) \<Longrightarrow> users_inv lc (users (resetStudentPassword n st))"
  by (auto simp: resetStudentPassword_def users_inv_def map_key_update_hash split: option.splits)

lemma reachable_users_inv: "reachable_users lc st \<Longrightarrow> users_inv lc (users st)"
proof (induction rule: reachable_users.induct)
  case (start st)
  then show ?case by (simp add: users_inv_def)
next
  case (signup st n p u st')
  then show ?case by (blast intro: signupUser_preserves_inv)
next
  case (reset st n)
  from reset.IH show ?case by (rule resetStudentPassword_preserves_inv)
qed

text \<open>
  In a store that satisfies the invariant, logging in under any casing of an account's
  name with a password of the stored hash returns that very account.
\<close>

lemma loginUser_member:
  assumes "users_inv lc (users st)" and "u \<in> set (users st)"
    and "lc n = lc (name u)" and "passwordHash u = simpleHash p"
  shows "loginUser lc n p st = Inr (u, st\<lparr>currentUser := Some u\<rparr>)"
proof -
  from assms(1,2) have "find (\<lambda>y. lc (name y) = lc (name u)) (users st) = Some u"
    unfolding users_inv_def by (rule find_distinct_key)
  with assms(3,4) show ?thesis by (simp add: loginUser_def)
qed

text \<open>
  Claim C7. \<open>signupUser\<close> fails with \<open>DuplicateName\<close> whenever an account of the store
  has the given name up to case; otherwise it appends exactly one account, with the given
  name and the hash of the password, to the store and returns it. A second signup under
  any casing of a name that was just signed up fails.
\<close>

theorem signupUser_spec:
  "((\<exists>user\<in>set (users st). lc (name user) = lc n) \<longrightarrow>
      signupUser lc n p st = Inl DuplicateName)
   \<and> (\<not> (\<exists>user\<in>set (users st). lc (name user) = lc n) \<longrightarrow>
      signupUser lc n p st =
        Inr (\<lparr>name = n, passwordHash = simpleHash p\<rparr>,
             st\<lparr>users := users st @ [\<lparr>name = n, passwordHash = simpleHash p\<rparr>]\<rparr>))
   \<and> (\<forall>u st' n' p'. signupUser lc n p st = Inr (u, st') \<and> lc n' = lc n \<longrightarrow>
      signupUser lc n' p' st' = Inl DuplicateName)"
proof (intro conjI impI allI)
  assume "\<exists>user\<in>set (users st). lc (name user) = lc n"
  then show "signupUser lc n p st = Inl DuplicateName"
    by (simp add: signupUser_def list_ex_iff)
next
  assume "\<not> (\<exists>user\<in>set (users st). lc (name user) = lc n)"
  then show "signupUser lc n p st =
        Inr (\<lparr>name = n, passwordHash = simpleHash p\<rparr>,
             st\<lparr>users := users st @ [\<lparr>name = n, passwordHash = simpleHash p\<rparr>]\<rparr>)"
    by (simp add: signupUser_def list_ex_iff Let_def)
next
  fix u st' n' p'
  assume a: "signupUser lc n p st = Inr (u, st') \<and> lc n' = lc n"
  then have "name u = n" and "u \<in> set (users st')"
    by (auto simp: signupUser_def Let_def split: if_splits)
  with a have "\<exists>user\<in>set (users st'). lc (name user) = lc n'"
    by auto
  then show "signupUser lc n' p' st' = Inl DuplicateName"
    by (simp add: signupUser_def list_ex_iff)
qed


theorem signupUser_spec_witness:
  "(\<exists>user\<in>set (users example_world). ascii_lower (name user) = ascii_lower (js ''MINA''))
   \<and> signupUser ascii_lower (js ''MINA'') (js ''9999'') example_world = Inl DuplicateName
   \<and> \<not> (\<exists>user\<in>set (users example_world). ascii_lower (name user) = ascii_lower (js ''Joon''))
   \<and> signupUser ascii_lower (js ''Joon'') (js ''4321'') example_world =
       Inr (example_joon, example_world\<lparr>users := users example_world @ [example_joon]\<rparr>)
   \<and> ascii_lower (js ''jOON'') = ascii_lower (js ''Joon'')
   \<and> signupUser ascii_lower (js ''jOON'') (js ''0000'')
         (example_world\<lparr>users := users example_world @ [example_joon]\<rparr>) = Inl DuplicateName"
proof -
  have dup: "\<exists>user\<in>set (users example_world). ascii_lower (name user) = ascii_lower (js ''MINA'')"
    by (simp add: example_world_def js_def ascii_lower_def)
  have fresh: "\<not> (\<exists>user\<in>set (users example_world). ascii_lower (name user) = ascii_lower (js ''Joon''))"
    by (simp add: example_world_def js_def ascii_lower_def)
  have same: "ascii_lower (js ''jOON'') = ascii_lower (js ''Joon'')"
    by (simp add: js_def ascii_lower_def)
  note spec = signupUser_spec [of example_world ascii_lower "js ''MINA''" "js ''9999''"]
  note spec' = signupUser_spec [of example_world ascii_lower "js ''Joon''" "js ''4321''"]
  from spec dup have 1: "signupUser ascii_lower (js ''MINA'') (js ''9999'') example_world = Inl DuplicateName"
    by blast
  from spec' fresh have 2: "signupUser ascii_lower (js ''Joon'') (js ''4321'') example_world =
       Inr (example_joon, example_world\<lparr>users := users example_world @ [example_joon]\<rparr>)"
    unfolding example_joon_def by blast
  from spec' 2 same have 3: "signupUser ascii_lower (js ''jOON'') (js ''0000'')
         (example_world\<lparr>users := users example_world @ [example_joon]\<rparr>) = Inl DuplicateName"
    by blast
  from dup 1 fresh 2 same 3 show ?thesis by blast
qed

text \<open>
  What happens to the accounts after a signup: as long as exactly one account has a name
  up to case, later signups, resets and other operations leave exactly one.
\<close>

lemma filter_single_find: "filter P xs = [y] \<Longrightarrow> find P xs = Some y"
  by (induction xs) (auto split: if_splits)

lemma length_filter_names:
  "map (\<lambda>u. lc (name u)) us = map (\<lambda>u. lc (name u)) vs \<Longrightarrow>
     length (filter (\<lambda>u. lc (name u) = k) us) = length (filter (\<lambda>u. lc (name u) = k) vs)"
proof (induction us arbitrary: vs)
  case Nil
  then show ?case by simp
next
  case (Cons u us)
  from Cons.prems obtain v vs' where vs: "vs = v # vs'" and hd: "lc (name u) = lc (name v)"
    and tl: "map (\<lambda>u. lc (name u)) us = map (\<lambda>u. lc (name u)) vs'"
    by (cases vs) auto
  from Cons.IH [OF tl] vs hd show ?case by simp
qed

lemma resetStudentPassword_names:
  "map (\<lambda>u. lc (name u)) (users (resetStudentPassword n st)) = map (\<lambda>u. lc (name u)) (users st)"
  by (simp add: resetStudentPassword_def map_key_update_hash split: option.splits)

lemma signupUser_result:
  assumes "signupUser lc n p st = Inr (u, st')"
  shows "u = \<lparr>name = n, passwordHash = simpleHash p\<rparr>" and "users st' = users st @ [u]"
    and "filter (\<lambda>x. lc (name x) = lc n) (users st) = []"
  using assms
  by (auto simp: signupUser_def list_ex_iff Let_def filter_empty_conv split: if_splits)

lemma subsequent_one_account:
  assumes "subsequent lc st st'"
    and "length (filter (\<lambda>x. lc (name x) = k) (users st)) = 1"
  shows "length (filter (\<lambda>x. lc (name x) = k) (users st')) = 1"
  using assms
proof (induction rule: subsequent.induct)
  case (now st)
  then show ?case by simp
next
  case (signup st st1 n p u st2)
  from signup.IH [OF signup.prems]
  have one: "length (filter (\<lambda>x. lc (name x) = k) (users st1)) = 1" .
  note su = signupUser_result [OF signup.hyps(2)]
  from one su(3) have "lc n \<noteq> k" by auto
  with su(1,2) one show ?case by simp
next
  case (reset st st1 n)
  from reset.IH [OF reset.prems]
  have "length (filter (\<lambda>x. lc (name x) = k) (users st1)) = 1" .
  moreover have "map (\<lambda>u. lc (name u)) (users (resetStudentPassword n st1))
      = map (\<lambda>u. lc (name u)) (users st1)"
    by (rule resetStudentPassword_names)
  then have "length (filter (\<lambda>x. lc (name x) = k) (users (resetStudentPassword n st1)))
      = length (filter (\<lambda>x. lc (name x) = k) (users st1))"
    by (rule length_filter_names)
  ultimately show ?case by simp
next
  case (other st st1 st2)
  from other.IH [OF other.prems] other.hyps(2) show ?case by simp
qed

lemma loginUser_single:
  assumes "length (filter (\<lambda>x. lc (name x) = lc n) (users st)) = 1"
    and "u \<in> set (users st)" and "lc (name u) = lc n" and "passwordHash u = simpleHash p"
  shows "loginUser lc n p st = Inr (u, st\<lparr>currentUser := Some u\<rparr>)"
proof -
  from assms(1) obtain y where y: "filter (\<lambda>x. lc (name x) = lc n) (users st) = [y]"
    by (cases "filter (\<lambda>x. lc (name x) = lc n) (users st)") auto
  from assms(2,3) have "u \<in> set (filter (\<lambda>x. lc (name x) = lc n) (users st))"
    by simp
  with y have "y = u" by simp
  with y have "find (\<lambda>x. lc (name x) = lc n) (users st) = Some u"
    by (simp add: filter_single_find)
  with assms(4) show ?thesis
    by (simp add: loginUser_def)
qed

text \<open>
  Claim C8. After a successful signup, and after whatever happened to the stores since
  (signups, password resets, anything that leaves the accounts alone), as long as the
  account is stored as the signup stored it, a login under any casing of the name with
  the same password succeeds and returns that account, whose name is the one given at
  signup; the session then holds it. The signup itself stores the account, so this holds
  for the login that follows it directly. A login fails with \<open>InvalidCredentials\<close> when
  no account has the name up to case, and when the first account that has it stores
  another hash.
\<close>

theorem loginUser_after_signupUser:
  "(\<forall>u st' st'' n'. signupUser lc n p st = Inr (u, st') \<and> subsequent lc st' st''
       \<and> u \<in> set (users st'') \<and> lc n' = lc n \<longrightarrow>
       loginUser lc n' p st'' = Inr (u, st''\<lparr>currentUser := Some u\<rparr>) \<and> name u = n
       \<and> passwordHash u = simpleHash p)
   \<and> (\<forall>u st' n'. signupUser lc n p st = Inr (u, st') \<and> lc n' = lc n \<longrightarrow>
       u \<in> set (users st')
       \<and> loginUser lc n' p st' = Inr (u, st'\<lparr>currentUser := Some u\<rparr>) \<and> name u = n
       \<and> passwordHash u = simpleHash p)
   \<and> (\<not> (\<exists>u\<in>set (users st). lc (name u) = lc n) \<longrightarrow>
       loginUser lc n p st = Inl InvalidCredentials)
   \<and> (\<forall>u. find (\<lambda>u. lc (name u) = lc n) (users st) = Some u \<and> passwordHash u \<noteq> simpleHash p \<longrightarrow>
       loginUser lc n p st = Inl InvalidCredentials)"
proof -
  have G: "loginUser lc n' p st'' = Inr (u, st''\<lparr>currentUser := Some u\<rparr>) \<and> name u = n
       \<and> passwordHash u = simpleHash p"
    if a: "signupUser lc n p st = Inr (u, st') \<and> subsequent lc st' st''
       \<and> u \<in> set (users st'') \<and> lc n' = lc n" for u st' st'' n'
  proof -
    from a have su: "signupUser lc n p st = Inr (u, st')" and later: "subsequent lc st' st''"
      and mem: "u \<in> set (users st'')" and same: "lc n' = lc n"
      by simp_all
    note r = signupUser_result [OF su]
    from r have "length (filter (\<lambda>x. lc (name x) = lc n) (users st')) = 1"
      by simp
    with later have "length (filter (\<lambda>x. lc (name x) = lc n) (users st'')) = 1"
      by (rule subsequent_one_account)
    with same have one: "length (filter (\<lambda>x. lc (name x) = lc n') (users st'')) = 1"
      by simp
    from r(1) same have "lc (name u) = lc n'" and "passwordHash u = simpleHash p"
      by simp_all
    with one mem have "loginUser lc n' p st'' = Inr (u, st''\<lparr>currentUser := Some u\<rparr>)"
      by (intro loginUser_single)
    with r(1) show ?thesis by simp
  qed
  have A: "u \<in> set (users st')
       \<and> loginUser lc n' p st' = Inr (u, st'\<lparr>currentUser := Some u\<rparr>) \<and> name u = n
       \<and> passwordHash u = simpleHash p"
    if a: "signupUser lc n p st = Inr (u, st') \<and> lc n' = lc n" for u st' n'
  proof -
    from a have su: "signupUser lc n p st = Inr (u, st')" by simp
    from signupUser_result(2) [OF su] have mem: "u \<in> set (users st')" by simp
    have "subsequent lc st' st'" by (rule subsequent.now)
    with a mem G [of u st' st' n'] show ?thesis by simp
  qed
  have B: "loginUser lc n p st = Inl InvalidCredentials"
    if "\<not> (\<exists>u\<in>set (users st). lc (name u) = lc n)"
  proof -
    from that have "find (\<lambda>u. lc (name u) = lc n) (users st) = None"
      by (simp add: find_None_iff)
    then show ?thesis
      by (simp add: loginUser_def)
  qed
  have C: "loginUser lc n p st = Inl InvalidCredentials"
    if "find (\<lambda>u. lc (name u) = lc n) (users st) = Some u \<and> passwordHash u \<noteq> simpleHash p" for u
    using that by (simp add: loginUser_def)
  show ?thesis
  proof (intro conjI allI impI)
    fix u st' st'' n'
    assume a: "signupUser lc n p st = Inr (u, st') \<and> subsequent lc st' st''
       \<and> u \<in> set (users st'') \<and> lc n' = lc n"
    from G [OF a] show "loginUser lc n' p st'' = Inr (u, st''\<lparr>currentUser := Some u\<rparr>)"
      and "name u = n" and "passwordHash u = simpleHash p"
      by simp_all
  next
    fix u st' n'
    assume a: "signupUser lc n p st = Inr (u, st') \<and> lc n' = lc n"
    from A [OF a] show "u \<in> set (users st')"
      and "loginUser lc n' p st' = Inr (u, st'\<lparr>currentUser := Some u\<rparr>)"
      and "name u = n" and "passwordHash u = simpleHash p"
      by simp_all
  next
    assume "\<not> (\<exists>u\<in>set (users st). lc (name u) = lc n)"
    then show "loginUser lc n p st = Inl InvalidCredentials" by (rule B)
  next
    fix u
    assume "find (\<lambda>u. lc (name u) = lc n) (users st) = Some u \<and> passwordHash u \<noteq> simpleHash p"
    then show "loginUser lc n p st = Inl InvalidCredentials" by (rule C)
  qed
qed

lemma example_subsequent:
  "subsequent ascii_lower (example_world\<lparr>users := users example_world @ [example_joon]\<rparr>)
     example_later"
proof -
  let ?st1 = "example_world\<lparr>users := users example_world @ [example_joon]\<rparr>"
  let ?st2 = "?st1\<lparr>users := users ?st1 @ [example_ara]\<rparr>"
  have "subsequent ascii_lower ?st1 ?st1"
    by (rule subsequent.now)
  moreover have "signupUser ascii_lower (js ''Ara'') (js ''5678'') ?st1 = Inr (example_ara, ?st2)"
    by (simp add: signupUser_def example_world_def example_joon_def example_ara_def js_def
        ascii_lower_def Let_def)
  ultimately have "subsequent ascii_lower ?st1 ?st2"
    by (rule subsequent.signup)
  then have "subsequent ascii_lower ?st1 (resetStudentPassword (js ''Mina'') ?st2)"
    by (rule subsequent.reset)
  moreover have "users example_later = users (resetStudentPassword (js ''Mina'') ?st2)"
    by (simp add: resetStudentPassword_def example_later_def example_world_def js_def)
  ultimately show ?thesis
    by (rule subsequent.other)
qed

theorem loginUser_after_signupUser_witness:
  "signupUser ascii_lower (js ''Joon'') (js ''4321'') example_world =
       Inr (example_joon, example_world\<lparr>users := users example_world @ [example_joon]\<rparr>)
   \<and> ascii_lower (js ''JOON'') = ascii_lower (js ''Joon'')
   \<and> loginUser ascii_lower (js ''JOON'') (js ''4321'')
        (example_world\<lparr>users := users example_world @ [example_joon]\<rparr>) =
       Inr (example_joon,
            example_world\<lparr>users := users example_world @ [example_joon], currentUser := Some example_joon\<rparr>)
   \<and> name example_joon = js ''Joon''
   \<and> subsequent ascii_lower (example_world\<lparr>users := users example_world @ [example_joon]\<rparr>)
        example_later
   \<and> map name (users example_later) = [js ''Mina'', js ''Joon'', js ''Ara'']
   \<and> example_joon \<in> set (users example_later)
   \<and> loginUser ascii_lower (js ''JOON'') (js ''4321'') example_later =
       Inr (example_joon, example_later\<lparr>currentUser := Some example_joon\<rparr>)
   \<and> \<not> (\<exists>u\<in>set (users example_world). ascii_lower (name u) = ascii_lower (js ''Joon''))
   \<and> loginUser ascii_lower (js ''Joon'') (js ''4321'') example_world = Inl InvalidCredentials
   \<and> find (\<lambda>u. ascii_lower (name u) = ascii_lower (js ''mina'')) (users example_world)
        = Some \<lparr>name = js ''Mina'', passwordHash = simpleHash (js ''1234'')\<rparr>
   \<and> simpleHash (js ''1234'') \<noteq> simpleHash (js ''1235'')
   \<and> loginUser ascii_lower (js ''mina'') (js ''1235'') example_world = Inl InvalidCredentials"
proof -
  note login = loginUser_after_signupUser [of ascii_lower "js ''Joon''" "js ''4321''" example_world]
  note login' = loginUser_after_signupUser [of ascii_lower "js ''mina''" "js ''1235''" example_world]
  have su: "signupUser ascii_lower (js ''Joon'') (js ''4321'') example_world =
       Inr (example_joon, example_world\<lparr>users := users example_world @ [example_joon]\<rparr>)"
    by (simp add: signupUser_def example_world_def example_joon_def js_def ascii_lower_def Let_def)
  have same: "ascii_lower (js ''JOON'') = ascii_lower (js ''Joon'')"
    by (simp add: js_def ascii_lower_def)
  from login su same have 1: "loginUser ascii_lower (js ''JOON'') (js ''4321'')
        (example_world\<lparr>users := users example_world @ [example_joon]\<rparr>) =
       Inr (example_joon,
            example_world\<lparr>users := users example_world @ [example_joon], currentUser := Some example_joon\<rparr>)"
    by auto
  have nm: "name example_joon = js ''Joon''"
    by (simp add: example_joon_def)
  have names: "map name (users example_later) = [js ''Mina'', js ''Joon'', js ''Ara'']"
    by (simp add: example_later_def example_joon_def example_ara_def)
  have mem: "example_joon \<in> set (users example_later)"
    by (simp add: example_later_def)
  from login su example_subsequent mem same
  have 2: "loginUser ascii_lower (js ''JOON'') (js ''4321'') example_later =
       Inr (example_joon, example_later\<lparr>currentUser := Some example_joon\<rparr>)"
    by blast
  have fresh: "\<not> (\<exists>u\<in>set (users example_world). ascii_lower (name u) = ascii_lower (js ''Joon''))"
    by (simp add: example_world_def js_def ascii_lower_def)
  from login fresh have 3: "loginUser ascii_lower (js ''Joon'') (js ''4321'') example_world = Inl InvalidCredentials"
    by blast
  have fnd: "find (\<lambda>u. ascii_lower (name u) = ascii_lower (js ''mina'')) (users example_world)
        = Some \<lparr>name = js ''Mina'', passwordHash = simpleHash (js ''1234'')\<rparr>"
    by (simp add: example_world_def js_def ascii_lower_def)
  have neq: "simpleHash (js ''1234'') \<noteq> simpleHash (js ''1235'')"
    by (simp add: simpleHash_def js_def toString_def digits10_eval)
  from login' fnd neq have 4: "loginUser ascii_lower (js ''mina'') (js ''1235'') example_world = Inl InvalidCredentials"
    by auto
  from su same 1 nm example_subsequent names mem 2 fresh 3 fnd neq 4 show ?thesis
    by (intro conjI)
qed

lemma findIndex_exact_None:
  "\<forall>u\<in>set us. name u \<noteq> n \<Longrightarrow> findIndex (\<lambda>u. name u = n) us = None"
  by (simp add: findIndex_None)

lemma exact_name_unique:
  assumes "users_inv lc us" and "u \<in> set us" and "lc (name u) = lc n" and "name u \<noteq> n"
  shows "\<forall>v\<in>set us. name v \<noteq> n"
proof
  fix v
  assume v: "v \<in> set us"
  show "name v \<noteq> n"
  proof
    assume "name v = n"
    with assms(3) have "lc (name v) = lc (name u)" by simp
    with assms(1) v assms(2) have "v = u"
      unfolding users_inv_def by (metis (mono_tags, lifting) distinct_map inj_onD)
    with \<open>name v = n\<close> assms(4) show False by simp
  qed
qed

text \<open>
  Claim C9. \<open>resetStudentPassword\<close> looks the account up by equality of the names.
  When no account has exactly the given name, the stores are unchanged; in a store that
  satisfies the invariant this is so for a name that differs only in case from the name
  of an account, while \<open>loginUser\<close> under that name finds the account. When an account
  has the name, the first such account gets the hash of \<open>0000\<close>, keeps its name, and
  every other account and every other store is unchanged.
\<close>

theorem resetStudentPassword_spec:
  "((\<forall>u\<in>set (users st). name u \<noteq> n) \<longrightarrow> resetStudentPassword n st = st)
   \<and> (\<forall>u p. users_inv lc (users st) \<and> u \<in> set (users st) \<and> lc n = lc (name u) \<and> name u \<noteq> n
          \<and> passwordHash u = simpleHash p \<longrightarrow>
        resetStudentPassword n st = st
        \<and> loginUser lc n p st = Inr (u, st\<lparr>currentUser := Some u\<rparr>))
   \<and> ((\<exists>u\<in>set (users st). name u = n) \<longrightarrow>
        (\<exists>i < length (users st).
           name (users st ! i) = n \<and> (\<forall>j<i. name (users st ! j) \<noteq> n)
           \<and> resetStudentPassword n st =
               st\<lparr>users := (users st)[i := \<lparr>name = n, passwordHash = simpleHash (js ''0000'')\<rparr>]\<rparr>
           \<and> length (users (resetStudentPassword n st)) = length (users st)
           \<and> (\<forall>j < length (users st). j \<noteq> i \<longrightarrow>
                 users (resetStudentPassword n st) ! j = users st ! j)))"
proof -
  have A: "resetStudentPassword n st = st" if "\<forall>u\<in>set (users st). name u \<noteq> n"
    using that by (simp add: resetStudentPassword_def findIndex_exact_None)
  have B: "resetStudentPassword n st = st \<and> loginUser lc n p st = Inr (u, st\<lparr>currentUser := Some u\<rparr>)"
    if h: "users_inv lc (users st) \<and> u \<in> set (users st) \<and> lc n = lc (name u) \<and> name u \<noteq> n
          \<and> passwordHash u = simpleHash p" for u p
  proof -
    from h have "\<forall>v\<in>set (users st). name v \<noteq> n"
      by (intro exact_name_unique [of lc "users st" u n]) auto
    then have "resetStudentPassword n st = st" by (rule A)
    moreover from h have "loginUser lc n p st = Inr (u, st\<lparr>currentUser := Some u\<rparr>)"
      by (intro loginUser_member) auto
    ultimately show ?thesis by simp
  qed
  have C: "\<exists>i < length (users st).
           name (users st ! i) = n \<and> (\<forall>j<i. name (users st ! j) \<noteq> n)
           \<and> resetStudentPassword n st =
               st\<lparr>users := (users st)[i := \<lparr>name = n, passwordHash = simpleHash (js ''0000'')\<rparr>]\<rparr>
           \<and> length (users (resetStudentPassword n st)) = length (users st)
           \<and> (\<forall>j < length (users st). j \<noteq> i \<longrightarrow>
                 users (resetStudentPassword n st) ! j = users st ! j)"
    if "\<exists>u\<in>set (users st). name u = n"
  proof -
    from that have "findIndex (\<lambda>u. name u = n) (users st) \<noteq> None"
      by (simp add: findIndex_None)
    then obtain i where i: "findIndex (\<lambda>u. name u = n) (users st) = Some i"
      by auto
    from findIndex_Some [OF i]
    have lt: "i < length (users st)" and nm: "name (users st ! i) = n"
      and first: "\<forall>j<i. name (users st ! j) \<noteq> n"
      by auto
    have upd: "(users st ! i)\<lparr>passwordHash := simpleHash (js ''0000'')\<rparr>
        = \<lparr>name = n, passwordHash = simpleHash (js ''0000'')\<rparr>"
      using nm by (cases "users st ! i") simp
    from i upd have eq: "resetStudentPassword n st =
        st\<lparr>users := (users st)[i := \<lparr>name = n, passwordHash = simpleHash (js ''0000'')\<rparr>]\<rparr>"
      by (simp add: resetStudentPassword_def)
    from lt nm first eq show ?thesis
      by (intro exI [of _ i]) simp
  qed
  from A B C show ?thesis by blast
qed

theorem resetStudentPassword_spec_witness:
  "js ''JOON'' \<notin> set (map name (users example_class))
   \<and> users_inv ascii_lower (users example_class)
   \<and> \<lparr>name = js ''Joon'', passwordHash = simpleHash (js ''4321'')\<rparr> \<in> set (users example_class)
   \<and> ascii_lower (js ''JOON'') = ascii_lower (js ''Joon'')
   \<and> js ''Joon'' \<noteq> js ''JOON''
   \<and> resetStudentPassword (js ''JOON'') example_class = example_class
   \<and> loginUser ascii_lower (js ''JOON'') (js ''4321'') example_class =
        Inr (\<lparr>name = js ''Joon'', passwordHash = simpleHash (js ''4321'')\<rparr>,
             example_class\<lparr>currentUser :=
               Some \<lparr>name = js ''Joon'', passwordHash = simpleHash (js ''4321'')\<rparr>\<rparr>)
   \<and> (\<exists>u\<in>set (users example_class). name u = js ''Joon'')
   \<and> resetStudentPassword (js ''Joon'') example_class =
        example_class\<lparr>users := [\<lparr>name = js ''Mina'', passwordHash = simpleHash (js ''1234'')\<rparr>,
                                 \<lparr>name = js ''Joon'', passwordHash = js ''1477632''\<rparr>]\<rparr>"
proof -
  let ?joon = "\<lparr>name = js ''Joon'', passwordHash = simpleHash (js ''4321'')\<rparr>"
  note spec = resetStudentPassword_spec [of example_class "js ''JOON''" ascii_lower]
  note spec' = resetStudentPassword_spec [of example_class "js ''Joon''" ascii_lower]
  have absent: "js ''JOON'' \<notin> set (map name (users example_class))"
    by (simp add: example_class_def js_def)
  have none: "\<forall>u\<in>set (users example_class). name u \<noteq> js ''JOON''"
    by (simp add: example_class_def js_def)
  have inv: "users_inv ascii_lower (users example_class)"
    by (simp add: users_inv_def example_class_def js_def ascii_lower_def)
  have mem: "?joon \<in> set (users example_class)"
    by (simp add: example_class_def)
  have same: "ascii_lower (js ''JOON'') = ascii_lower (js ''Joon'')"
    by (simp add: js_def ascii_lower_def)
  have diff: "js ''Joon'' \<noteq> js ''JOON''"
    by (simp add: js_def)
  from spec none have 1: "resetStudentPassword (js ''JOON'') example_class = example_class"
    by blast
  have "users_inv ascii_lower (users example_class) \<and> ?joon \<in> set (users example_class)
      \<and> ascii_lower (js ''JOON'') = ascii_lower (name ?joon) \<and> name ?joon \<noteq> js ''JOON''
      \<and> passwordHash ?joon = simpleHash (js ''4321'')"
    using inv mem same diff by simp
  with spec have 2: "loginUser ascii_lower (js ''JOON'') (js ''4321'') example_class =
        Inr (?joon, example_class\<lparr>currentUser := Some ?joon\<rparr>)"
    by blast
  have ex: "\<exists>u\<in>set (users example_class). name u = js ''Joon''"
    by (simp add: example_class_def)
  with spec' obtain i where i: "i < length (users example_class)"
      "name (users example_class ! i) = js ''Joon''"
      "resetStudentPassword (js ''Joon'') example_class =
         example_class\<lparr>users := (users example_class)
            [i := \<lparr>name = js ''Joon'', passwordHash = simpleHash (js ''0000'')\<rparr>]\<rparr>"
    by blast
  from i(1,2) have "i = 1"
    by (auto simp: example_class_def js_def less_Suc_eq numeral_2_eq_2)
  with i(3) have 3: "resetStudentPassword (js ''Joon'') example_class =
        example_class\<lparr>users := [\<lparr>name = js ''Mina'', passwordHash = simpleHash (js ''1234'')\<rparr>,
                                 \<lparr>name = js ''Joon'', passwordHash = js ''1477632''\<rparr>]\<rparr>"
    by (simp add: example_class_def simpleHash_0000)
  from absent inv mem same diff 1 2 ex 3 show ?thesis by (intro conjI)
qed


lemma asMoodMeterQuadrant_None:
  "label \<notin> {js ''YELLOW'', js ''RED'', js ''BLUE'', js ''GREEN''} \<Longrightarrow> asMoodMeterQuadrant label = None"
  by (simp add: asMoodMeterQuadrant_def)

lemma asMoodMeterQuadrant_labels:
  "asMoodMeterQuadrant (js ''YELLOW'') = Some YELLOW"
  "asMoodMeterQuadrant (js ''RED'') = Some RED"
  "asMoodMeterQuadrant (js ''BLUE'') = Some BLUE"
  "asMoodMeterQuadrant (js ''GREEN'') = Some GREEN"
  by (simp_all add: asMoodMeterQuadrant_def js_def)

text \<open>
  Claim C5, as stated, fails: without a stored API key \<open>getAI\<close> throws before the
  \<open>try\<close> block of \<open>getMoodMeterQuadrant\<close> is entered, and the promise rejects.
\<close>

theorem getMoodMeterQuadrant_raises:
  "getMoodMeterQuadrant ascii_upper (provider_says (js ''RED'')) (js ''angry'') example_no_key
     = (Inl CredentialMissing, example_no_key)"
  by (simp add: getMoodMeterQuadrant_def getAI_def example_no_key_def)

text \<open>
  Claim C5, amended. With a stored API key \<open>getMoodMeterQuadrant\<close> sends one request and
  returns a quadrant, never an error: \<open>BLUE\<close> when the provider call fails and when the
  response, trimmed and in upper case, is none of the four labels, and otherwise the
  quadrant that the label names. Without a key it fails with \<open>CredentialMissing\<close> and
  sends nothing.
\<close>

theorem getMoodMeterQuadrant_spec:
  "(getAI w = Inl CredentialMissing \<longrightarrow>
      getMoodMeterQuadrant uc prov m w = (Inl CredentialMissing, w))
   \<and> (\<forall>key. getAI w = Inr key \<longrightarrow>
        (\<exists>q. getMoodMeterQuadrant uc prov m w = (Inr q, w\<lparr>network := network w @ [GenerateQuadrant m]\<rparr>)
           \<and> q \<in> {YELLOW, RED, BLUE, GREEN}
           \<and> (prov (GenerateQuadrant m) = None \<longrightarrow> q = BLUE)
           \<and> (\<forall>response. prov (GenerateQuadrant m) = Some response \<longrightarrow>
                (uc (trim response) = js ''YELLOW'' \<longrightarrow> q = YELLOW)
                \<and> (uc (trim response) = js ''RED'' \<longrightarrow> q = RED)
                \<and> (uc (trim response) = js ''BLUE'' \<longrightarrow> q = BLUE)
                \<and> (uc (trim response) = js ''GREEN'' \<longrightarrow> q = GREEN)
                \<and> (uc (trim response) \<notin> {js ''YELLOW'', js ''RED'', js ''BLUE'', js ''GREEN''} \<longrightarrow>
                     q = BLUE))))"
proof -
  have A: "getMoodMeterQuadrant uc prov m w = (Inl CredentialMissing, w)"
    if "getAI w = Inl CredentialMissing"
    using that by (simp add: getMoodMeterQuadrant_def)
  have B: "\<exists>q. getMoodMeterQuadrant uc prov m w = (Inr q, w\<lparr>network := network w @ [GenerateQuadrant m]\<rparr>)
           \<and> q \<in> {YELLOW, RED, BLUE, GREEN}
           \<and> (prov (GenerateQuadrant m) = None \<longrightarrow> q = BLUE)
           \<and> (\<forall>response. prov (GenerateQuadrant m) = Some response \<longrightarrow>
                (uc (trim response) = js ''YELLOW'' \<longrightarrow> q = YELLOW)
                \<and> (uc (trim response) = js ''RED'' \<longrightarrow> q = RED)
                \<and> (uc (trim response) = js ''BLUE'' \<longrightarrow> q = BLUE)
                \<and> (uc (trim response) = js ''GREEN'' \<longrightarrow> q = GREEN)
                \<and> (uc (trim response) \<notin> {js ''YELLOW'', js ''RED'', js ''BLUE'', js ''GREEN''} \<longrightarrow>
                     q = BLUE))"
    if key: "getAI w = Inr key" for key
  proof (cases "prov (GenerateQuadrant m)")
    case None
    with key show ?thesis
      by (simp add: getMoodMeterQuadrant_def generateContent_def)
  next
    case (Some response)
    show ?thesis
    proof (cases "asMoodMeterQuadrant (uc (trim response))")
      case None
      then have "uc (trim response) \<noteq> js ''YELLOW''" "uc (trim response) \<noteq> js ''RED''"
        "uc (trim response) \<noteq> js ''BLUE''" "uc (trim response) \<noteq> js ''GREEN''"
        by (auto simp: asMoodMeterQuadrant_labels)
      with key Some None show ?thesis
        by (simp add: getMoodMeterQuadrant_def generateContent_def)
    next
      case (Some q)
      then have q: "(uc (trim response) = js ''YELLOW'' \<longrightarrow> q = YELLOW)
                \<and> (uc (trim response) = js ''RED'' \<longrightarrow> q = RED)
                \<and> (uc (trim response) = js ''BLUE'' \<longrightarrow> q = BLUE)
                \<and> (uc (trim response) = js ''GREEN'' \<longrightarrow> q = GREEN)
                \<and> (uc (trim response) \<notin> {js ''YELLOW'', js ''RED'', js ''BLUE'', js ''GREEN''} \<longrightarrow>
                     q = BLUE)"
        by (auto simp: asMoodMeterQuadrant_labels asMoodMeterQuadrant_None)
      have "q \<in> {YELLOW, RED, BLUE, GREEN}"
        by (cases q) simp_all
      with key \<open>prov (GenerateQuadrant m) = Some response\<close> Some q show ?thesis
        by (simp add: getMoodMeterQuadrant_def generateContent_def)
    qed
  qed
  from A B show ?thesis by blast
qed

theorem getMoodMeterQuadrant_spec_witness:
  "getAI example_no_key = Inl CredentialMissing
   \<and> getMoodMeterQuadrant ascii_upper provider_down (js ''angry'') example_no_key
       = (Inl CredentialMissing, example_no_key)
   \<and> getAI example_world = Inr (js ''key'')
   \<and> provider_down (GenerateQuadrant (js ''angry'')) = None
   \<and> getMoodMeterQuadrant ascii_upper provider_down (js ''angry'') example_world
       = (Inr BLUE, example_world\<lparr>network := [GenerateQuadrant (js ''angry'')]\<rparr>)
   \<and> ascii_upper (trim (js '' red '')) = js ''RED''
   \<and> getMoodMeterQuadrant ascii_upper (provider_says (js '' red '')) (js ''angry'') example_world
       = (Inr RED, example_world\<lparr>network := [GenerateQuadrant (js ''angry'')]\<rparr>)
   \<and> ascii_upper (trim (js ''PURPLE'')) \<notin> {js ''YELLOW'', js ''RED'', js ''BLUE'', js ''GREEN''}
   \<and> getMoodMeterQuadrant ascii_upper (provider_says (js ''PURPLE'')) (js ''angry'') example_world
       = (Inr BLUE, example_world\<lparr>network := [GenerateQuadrant (js ''angry'')]\<rparr>)"
proof -
  have nw: "network example_world = []"
    by (simp add: example_world_def)
  have nokey: "getAI example_no_key = Inl CredentialMissing"
    by (simp add: getAI_def example_no_key_def)
  have key: "getAI example_world = Inr (js ''key'')"
    by (simp add: getAI_def example_world_def js_def)
  have down: "provider_down (GenerateQuadrant (js ''angry'')) = None"
    by (simp add: provider_down_def)
  have red: "ascii_upper (trim (js '' red '')) = js ''RED''"
    by (simp add: ascii_upper_def trim_def js_def isWhiteSpace_def)
  have purple: "ascii_upper (trim (js ''PURPLE'')) \<notin> {js ''YELLOW'', js ''RED'', js ''BLUE'', js ''GREEN''}"
    by (simp add: ascii_upper_def trim_def js_def isWhiteSpace_def)
  from getMoodMeterQuadrant_spec [of example_no_key ascii_upper provider_down "js ''angry''"] nokey
  have 1: "getMoodMeterQuadrant ascii_upper provider_down (js ''angry'') example_no_key
       = (Inl CredentialMissing, example_no_key)"
    by blast
  from getMoodMeterQuadrant_spec [of example_world ascii_upper provider_down "js ''angry''"] key down nw
  have 2: "getMoodMeterQuadrant ascii_upper provider_down (js ''angry'') example_world
       = (Inr BLUE, example_world\<lparr>network := [GenerateQuadrant (js ''angry'')]\<rparr>)"
    by auto
  have "provider_says (js '' red '') (GenerateQuadrant (js ''angry'')) = Some (js '' red '')"
    by (simp add: provider_says_def)
  with getMoodMeterQuadrant_spec [of example_world ascii_upper "provider_says (js '' red '')" "js ''angry''"]
    key red nw
  have 3: "getMoodMeterQuadrant ascii_upper (provider_says (js '' red '')) (js ''angry'') example_world
       = (Inr RED, example_world\<lparr>network := [GenerateQuadrant (js ''angry'')]\<rparr>)"
    by auto
  have "provider_says (js ''PURPLE'') (GenerateQuadrant (js ''angry'')) = Some (js ''PURPLE'')"
    by (simp add: provider_says_def)
  with getMoodMeterQuadrant_spec [of example_world ascii_upper "provider_says (js ''PURPLE'')" "js ''angry''"]
    key purple nw
  have 4: "getMoodMeterQuadrant ascii_upper (provider_says (js ''PURPLE'')) (js ''angry'') example_world
       = (Inr BLUE, example_world\<lparr>network := [GenerateQuadrant (js ''angry'')]\<rparr>)"
    by auto
  from nokey 1 key down 2 red 3 purple 4 show ?thesis by blast
qed


section \<open>One call of handleSendMessage, case by case\<close>

lemma handleSendMessage_blocked:
  "\<not> inProgress c \<Longrightarrow> handleSendMessage P prov i t usr (c, w) = (c, w)"
  by (auto simp: handleSendMessage_def inProgress_def)

lemma handleSendMessage_chat_failed:
  assumes "inProgress c" and "chatCall prov c w = (Inl e, w1)"
  shows "handleSendMessage P prov i t usr (c, w) =
    (c\<lparr>error := Some e, messages := messages c @ [userMessage c], userInput := [],
       isAITyping := False\<rparr>, w1)"
  using assms
  by (simp add: handleSendMessage_def inProgress_def chatCall_def userMessage_def Let_def
      split: if_splits)

lemma handleSendMessage_continued:
  assumes "inProgress c" and "chatCall prov c w = (Inr reply, w1)"
    and "turnCount c + 1 < MAX_TURNS"
  shows "handleSendMessage P prov i t usr (c, w) =
    (c\<lparr>error := None, userInput := [],
       messages := messages c @ [userMessage c, \<lparr>sender = AI, text = reply\<rparr>],
       turnCount := turnCount c + 1, isAITyping := False\<rparr>, w1)"
  using assms
  by (simp add: handleSendMessage_def inProgress_def chatCall_def userMessage_def Let_def
      split: if_splits)

lemma handleSendMessage_summary_failed:
  assumes "inProgress c" and "chatCall prov c w = (Inr reply, w1)"
    and "MAX_TURNS \<le> turnCount c + 1"
    and "getFinalSummary P prov (messages c @ [userMessage c, \<lparr>sender = AI, text = reply\<rparr>]) w1
           = (Inl e, w2)"
  shows "handleSendMessage P prov i t usr (c, w) =
    (c\<lparr>error := Some e, userInput := [],
       messages := messages c @ [userMessage c, \<lparr>sender = AI, text = reply\<rparr>],
       turnCount := turnCount c + 1, isConversationOver := True, isAITyping := False\<rparr>, w2)"
  using assms
  by (simp add: handleSendMessage_def inProgress_def chatCall_def userMessage_def Let_def
      split: if_splits)

lemma handleSendMessage_saved:
  assumes "inProgress c" and "chatCall prov c w = (Inr reply, w1)"
    and "MAX_TURNS \<le> turnCount c + 1"
    and "getFinalSummary P prov (messages c @ [userMessage c, \<lparr>sender = AI, text = reply\<rparr>]) w1
           = (Inr s, w2)"
    and "saveConversation (name usr)
           \<lparr>conv_id = js ''conv_'' @ toString i, timestamp = t,
            conv_messages = messages c @ [userMessage c, \<lparr>sender = AI, text = reply\<rparr>],
            summary = s\<rparr> w2 = Inr w3"
  shows "handleSendMessage P prov i t usr (c, w) =
    (c\<lparr>error := None, userInput := [],
       messages := messages c @ [userMessage c, \<lparr>sender = AI, text = reply\<rparr>],
       turnCount := turnCount c + 1, isConversationOver := True,
       finalSummary := nullable s, isAITyping := False\<rparr>, w3)"
  using assms
  by (simp add: handleSendMessage_def inProgress_def chatCall_def userMessage_def Let_def
      split: if_splits)

lemma handleSendMessage_save_failed:
  assumes "inProgress c" and "chatCall prov c w = (Inr reply, w1)"
    and "MAX_TURNS \<le> turnCount c + 1"
    and "getFinalSummary P prov (messages c @ [userMessage c, \<lparr>sender = AI, text = reply\<rparr>]) w1
           = (Inr s, w2)"
    and "saveConversation (name usr)
           \<lparr>conv_id = js ''conv_'' @ toString i, timestamp = t,
            conv_messages = messages c @ [userMessage c, \<lparr>sender = AI, text = reply\<rparr>],
            summary = s\<rparr> w2 = Inl e"
  shows "handleSendMessage P prov i t usr (c, w) =
    (c\<lparr>error := Some e, userInput := [],
       messages := messages c @ [userMessage c, \<lparr>sender = AI, text = reply\<rparr>],
       turnCount := turnCount c + 1, isConversationOver := True,
       finalSummary := nullable s, isAITyping := False\<rparr>, w2)"
  using assms
  by (simp add: handleSendMessage_def inProgress_def chatCall_def userMessage_def Let_def
      split: if_splits)

text \<open>What \<open>saveConversation\<close> does to the stores when it returns.\<close>

lemma saveConversation_stores:
  assumes "saveConversation n conv w = Inr w'"
  shows "network w' = network w" and "users w' = users w"
    and "gemini_api_key w' = gemini_api_key w" and "currentUser w' = currentUser w"
  using assms
  by (auto simp: saveConversation_def split: option.splits if_splits)

lemma handleSendMessage_summarized:
  assumes "inProgress c" and "chatCall prov c w = (Inr reply, w1)"
    and "MAX_TURNS \<le> turnCount c + 1"
    and "getFinalSummary P prov (messages c @ [userMessage c, \<lparr>sender = AI, text = reply\<rparr>]) w1
           = (Inr s, w2)"
  shows "\<exists>e w3. handleSendMessage P prov i t usr (c, w) =
    (c\<lparr>error := e, userInput := [],
       messages := messages c @ [userMessage c, \<lparr>sender = AI, text = reply\<rparr>],
       turnCount := turnCount c + 1, isConversationOver := True,
       finalSummary := nullable s, isAITyping := False\<rparr>, w3)
    \<and> network w3 = network w2"
proof (cases "saveConversation (name usr)
           \<lparr>conv_id = js ''conv_'' @ toString i, timestamp = t,
            conv_messages = messages c @ [userMessage c, \<lparr>sender = AI, text = reply\<rparr>],
            summary = s\<rparr> w2")
  case (Inl e)
  from handleSendMessage_save_failed [OF assms Inl] show ?thesis
    by blast
next
  case (Inr w3)
  from handleSendMessage_saved [OF assms Inr] saveConversation_stores(1) [OF Inr] show ?thesis
    by blast
qed

text \<open>What the gateway operations do to the stores: they only extend the list of requests.\<close>

lemma getChatResponse_world:
  "getChatResponse prov h w = (r, w1) \<Longrightarrow>
     w1 = w \<or> w1 = w\<lparr>network := network w @ [GenerateChat (buildChatHistory h)]\<rparr>"
  by (auto simp: getChatResponse_def generateContent_def split: sum.splits option.splits)

lemma getFinalChatResponse_world:
  "getFinalChatResponse prov h w = (r, w1) \<Longrightarrow>
     w1 = w \<or> w1 = w\<lparr>network := network w @ [GenerateFinalChat (buildChatHistory h)]\<rparr>"
  by (auto simp: getFinalChatResponse_def generateContent_def split: sum.splits option.splits)

lemma getFinalSummary_world:
  "getFinalSummary P prov h w = (r, w1) \<Longrightarrow>
     w1 = w \<or> w1 = w\<lparr>network := network w @ [GenerateSummary h]\<rparr>"
  by (auto simp: getFinalSummary_def generateContent_def split: sum.splits option.splits)

lemma chatCall_stores:
  assumes "chatCall prov c w = (r, w1)"
  shows "conversations w1 = conversations w \<and> users w1 = users w
    \<and> gemini_api_key w1 = gemini_api_key w \<and> currentUser w1 = currentUser w"
proof (cases "turnCount c + 1 = MAX_TURNS")
  case True
  with assms getFinalChatResponse_world [of prov "messages c @ [userMessage c]" w r w1]
  show ?thesis by (auto simp: chatCall_def)
next
  case False
  with assms getChatResponse_world [of prov "messages c @ [userMessage c]" w r w1]
  show ?thesis by (auto simp: chatCall_def)
qed

lemma getFinalSummary_stores:
  assumes "getFinalSummary P prov h w = (r, w1)"
  shows "conversations w1 = conversations w \<and> users w1 = users w
    \<and> gemini_api_key w1 = gemini_api_key w \<and> currentUser w1 = currentUser w"
  using getFinalSummary_world [OF assms] by auto


lemma getChatResponse_key:
  "getAI w = Inr key \<Longrightarrow>
   getChatResponse prov h w =
     (case prov (GenerateChat (buildChatHistory h)) of
        None \<Rightarrow> Inl ChatResponseError | Some response \<Rightarrow> Inr (trim response),
      w\<lparr>network := network w @ [GenerateChat (buildChatHistory h)]\<rparr>)"
  by (simp add: getChatResponse_def generateContent_def split: option.splits)

lemma getFinalChatResponse_key:
  "getAI w = Inr key \<Longrightarrow>
   getFinalChatResponse prov h w =
     (case prov (GenerateFinalChat (buildChatHistory h)) of
        None \<Rightarrow> Inl FinalChatResponseError | Some response \<Rightarrow> Inr (trim response),
      w\<lparr>network := network w @ [GenerateFinalChat (buildChatHistory h)]\<rparr>)"
  by (simp add: getFinalChatResponse_def generateContent_def split: option.splits)

lemma getFinalSummary_key:
  "getAI w = Inr key \<Longrightarrow>
   getFinalSummary P prov h w =
     (case prov (GenerateSummary h) of
        None \<Rightarrow> Inl FinalSummaryError
      | Some response \<Rightarrow>
          (case P (trim response) of None \<Rightarrow> Inl FinalSummaryError | Some s \<Rightarrow> Inr s),
      w\<lparr>network := network w @ [GenerateSummary h]\<rparr>)"
  by (simp add: getFinalSummary_def generateContent_def split: option.splits)

lemma getAI_network [simp]: "getAI (w\<lparr>network := n\<rparr>) = getAI w"
  by (simp add: getAI_def)

lemma handleSendMessage_appends_user:
  assumes "inProgress c"
  shows "\<exists>rest. messages (fst (handleSendMessage P prov i t usr (c, w)))
            = messages c @ userMessage c # rest"
proof -
  obtain r w1 where call: "chatCall prov c w = (r, w1)"
    by (cases "chatCall prov c w")
  show ?thesis
  proof (cases r)
    case (Inl e)
    with assms call show ?thesis
      by (simp add: handleSendMessage_chat_failed)
  next
    case (Inr reply)
    show ?thesis
    proof (cases "turnCount c + 1 < MAX_TURNS")
      case True
      with assms call Inr show ?thesis
        by (simp add: handleSendMessage_continued)
    next
      case False
      obtain s w2 where summ:
        "getFinalSummary P prov (messages c @ [userMessage c, \<lparr>sender = AI, text = reply\<rparr>]) w1
           = (s, w2)"
        by (cases "getFinalSummary P prov (messages c @ [userMessage c, \<lparr>sender = AI, text = reply\<rparr>]) w1")
      from False have ge: "MAX_TURNS \<le> turnCount c + 1" by simp
      show ?thesis
      proof (cases s)
        case (Inl e)
        with assms call Inr ge summ show ?thesis
          by (simp add: handleSendMessage_summary_failed)
      next
        case (Inr fs)
        from call \<open>r = Inr reply\<close> have call': "chatCall prov c w = (Inr reply, w1)"
          by simp
        from summ Inr have summ':
          "getFinalSummary P prov (messages c @ [userMessage c, \<lparr>sender = AI, text = reply\<rparr>]) w1
             = (Inr fs, w2)"
          by simp
        from handleSendMessage_summarized [where usr = usr and i = i and t = t,
            OF assms call' ge summ']
        obtain e w3 where "handleSendMessage P prov i t usr (c, w) =
            (c\<lparr>error := e, userInput := [],
               messages := messages c @ [userMessage c, \<lparr>sender = AI, text = reply\<rparr>],
               turnCount := turnCount c + 1, isConversationOver := True,
               finalSummary := nullable fs, isAITyping := False\<rparr>, w3)"
          by blast
        then show ?thesis by simp
      qed
    qed
  qed
qed

lemma handleSendMessage_continue_network:
  assumes "inProgress c" and "turnCount c + 1 < MAX_TURNS" and "getAI w = Inr key"
  shows "network (snd (handleSendMessage P prov i t usr (c, w)))
           = network w @ [GenerateChat (buildChatHistory (messages c @ [userMessage c]))]"
proof -
  from assms(2) have ne: "turnCount c + 1 \<noteq> MAX_TURNS" by simp
  show ?thesis
  proof (cases "prov (GenerateChat (buildChatHistory (messages c @ [userMessage c])))")
    case None
    with assms ne have "chatCall prov c w = (Inl ChatResponseError,
        w\<lparr>network := network w @ [GenerateChat (buildChatHistory (messages c @ [userMessage c]))]\<rparr>)"
      by (simp add: chatCall_def getChatResponse_key)
    with assms(1) show ?thesis
      by (simp add: handleSendMessage_chat_failed)
  next
    case (Some response)
    with assms ne have "chatCall prov c w = (Inr (trim response),
        w\<lparr>network := network w @ [GenerateChat (buildChatHistory (messages c @ [userMessage c]))]\<rparr>)"
      by (simp add: chatCall_def getChatResponse_key)
    with assms(1,2) show ?thesis
      by (simp add: handleSendMessage_continued)
  qed
qed

lemma handleSendMessage_close_network:
  assumes "inProgress c" and "turnCount c + 1 = MAX_TURNS" and "getAI w = Inr key"
  shows "network (snd (handleSendMessage P prov i t usr (c, w)))
           = network w @ GenerateFinalChat (buildChatHistory (messages c @ [userMessage c])) #
               (case prov (GenerateFinalChat (buildChatHistory (messages c @ [userMessage c]))) of
                  None \<Rightarrow> []
                | Some response \<Rightarrow>
                    [GenerateSummary (messages c @ [userMessage c, \<lparr>sender = AI, text = trim response\<rparr>])])"
proof (cases "prov (GenerateFinalChat (buildChatHistory (messages c @ [userMessage c])))")
  case None
  with assms have "chatCall prov c w = (Inl FinalChatResponseError,
      w\<lparr>network := network w @ [GenerateFinalChat (buildChatHistory (messages c @ [userMessage c]))]\<rparr>)"
    by (simp add: chatCall_def getFinalChatResponse_key)
  with assms(1) None show ?thesis
    by (simp add: handleSendMessage_chat_failed)
next
  case (Some response)
  let ?w1 = "w\<lparr>network := network w @ [GenerateFinalChat (buildChatHistory (messages c @ [userMessage c]))]\<rparr>"
  let ?h = "messages c @ [userMessage c, \<lparr>sender = AI, text = trim response\<rparr>]"
  from Some assms have call: "chatCall prov c w = (Inr (trim response), ?w1)"
    by (simp add: chatCall_def getFinalChatResponse_key)
  from assms(3) have key: "getAI ?w1 = Inr key" by simp
  obtain s where summ: "getFinalSummary P prov ?h ?w1
      = (s, ?w1\<lparr>network := network ?w1 @ [GenerateSummary ?h]\<rparr>)"
    using getFinalSummary_key [OF key, of P prov ?h] by simp
  from assms(2) have ge: "MAX_TURNS \<le> turnCount c + 1" by simp
  show ?thesis
  proof (cases s)
    case (Inl e)
    with assms(1) call ge summ Some show ?thesis
      by (simp add: handleSendMessage_summary_failed)
  next
    case (Inr fs)
    with summ have summ': "getFinalSummary P prov ?h ?w1
        = (Inr fs, ?w1\<lparr>network := network ?w1 @ [GenerateSummary ?h]\<rparr>)"
      by simp
    from handleSendMessage_summarized [where usr = usr and i = i and t = t,
        OF assms(1) call ge summ']
    obtain e w3 where "handleSendMessage P prov i t usr (c, w) =
        (c\<lparr>error := e, userInput := [], messages := ?h,
           turnCount := turnCount c + 1, isConversationOver := True,
           finalSummary := nullable fs, isAITyping := False\<rparr>, w3)"
      and "network w3 = network (?w1\<lparr>network := network ?w1 @ [GenerateSummary ?h]\<rparr>)"
      by blast
    with Some show ?thesis by simp
  qed
qed

lemma handleSendMessage_continue_success:
  assumes "inProgress c" and "turnCount c + 1 < MAX_TURNS"
    and "getChatResponse prov (messages c @ [userMessage c]) w = (Inr reply, w1)"
  shows "handleSendMessage P prov i t usr (c, w) =
    (c\<lparr>error := None, userInput := [],
       messages := messages c @ [userMessage c, \<lparr>sender = AI, text = reply\<rparr>],
       turnCount := turnCount c + 1, isAITyping := False\<rparr>, w1)"
proof -
  from assms(2,3) have "chatCall prov c w = (Inr reply, w1)"
    by (simp add: chatCall_def)
  with assms(1,2) show ?thesis
    by (simp add: handleSendMessage_continued)
qed

lemma handleSendMessage_close_success:
  assumes "inProgress c" and "turnCount c + 1 = MAX_TURNS"
    and "getFinalChatResponse prov (messages c @ [userMessage c]) w = (Inr reply, w1)"
  shows "messages (fst (handleSendMessage P prov i t usr (c, w)))
           = messages c @ [userMessage c, \<lparr>sender = AI, text = reply\<rparr>]
       \<and> turnCount (fst (handleSendMessage P prov i t usr (c, w))) = turnCount c + 1"
proof -
  from assms(2,3) have call: "chatCall prov c w = (Inr reply, w1)"
    by (simp add: chatCall_def)
  obtain s w2 where summ:
    "getFinalSummary P prov (messages c @ [userMessage c, \<lparr>sender = AI, text = reply\<rparr>]) w1 = (s, w2)"
    by (cases "getFinalSummary P prov (messages c @ [userMessage c, \<lparr>sender = AI, text = reply\<rparr>]) w1")
  from assms(2) have ge: "MAX_TURNS \<le> turnCount c + 1" by simp
  show ?thesis
  proof (cases s)
    case (Inl e)
    with assms(1) call ge summ show ?thesis
      by (simp add: handleSendMessage_summary_failed)
  next
    case (Inr fs)
    with summ have summ':
      "getFinalSummary P prov (messages c @ [userMessage c, \<lparr>sender = AI, text = reply\<rparr>]) w1
         = (Inr fs, w2)"
      by simp
    from handleSendMessage_summarized [where usr = usr and i = i and t = t,
        OF assms(1) call ge summ']
    obtain e w3 where "handleSendMessage P prov i t usr (c, w) =
        (c\<lparr>error := e, userInput := [],
           messages := messages c @ [userMessage c, \<lparr>sender = AI, text = reply\<rparr>],
           turnCount := turnCount c + 1, isConversationOver := True,
           finalSummary := nullable fs, isAITyping := False\<rparr>, w3)"
      by blast
    then show ?thesis by simp
  qed
qed

text \<open>
  Claim C1. In an in-progress conversation with turn count \<open>t\<close> and history \<open>h\<close>, a send
  appends the user message to \<open>h\<close>. If \<open>t + 1 < MAX_TURNS\<close>, the request sent is the one of
  \<open>getChatResponse\<close> for the history with the new user message; if \<open>t + 1 = MAX_TURNS\<close>, it
  is the one of \<open>getFinalChatResponse\<close> (followed by the request for the summary when the
  provider answered). When the operation succeeds the message of the coach is appended
  and the turn count is \<open>t + 1\<close>.
\<close>

theorem handleSendMessage_turn:
  "inProgress c \<longrightarrow>
     (\<exists>rest. messages (fst (handleSendMessage P prov i t usr (c, w)))
               = messages c @ userMessage c # rest)
   \<and> (turnCount c + 1 < MAX_TURNS \<longrightarrow>
        (\<forall>key. getAI w = Inr key \<longrightarrow>
           network (snd (handleSendMessage P prov i t usr (c, w)))
             = network w @ [GenerateChat (buildChatHistory (messages c @ [userMessage c]))])
        \<and> (\<forall>reply w1. getChatResponse prov (messages c @ [userMessage c]) w = (Inr reply, w1) \<longrightarrow>
             messages (fst (handleSendMessage P prov i t usr (c, w)))
               = messages c @ [userMessage c, \<lparr>sender = AI, text = reply\<rparr>]
             \<and> turnCount (fst (handleSendMessage P prov i t usr (c, w))) = turnCount c + 1
             \<and> snd (handleSendMessage P prov i t usr (c, w)) = w1))
   \<and> (turnCount c + 1 = MAX_TURNS \<longrightarrow>
        (\<forall>key. getAI w = Inr key \<longrightarrow>
           network (snd (handleSendMessage P prov i t usr (c, w)))
             = network w @ GenerateFinalChat (buildChatHistory (messages c @ [userMessage c])) #
               (case prov (GenerateFinalChat (buildChatHistory (messages c @ [userMessage c]))) of
                  None \<Rightarrow> []
                | Some response \<Rightarrow>
                    [GenerateSummary
                       (messages c @ [userMessage c, \<lparr>sender = AI, text = trim response\<rparr>])]))
        \<and> (\<forall>reply w1. getFinalChatResponse prov (messages c @ [userMessage c]) w = (Inr reply, w1) \<longrightarrow>
             messages (fst (handleSendMessage P prov i t usr (c, w)))
               = messages c @ [userMessage c, \<lparr>sender = AI, text = reply\<rparr>]
             \<and> turnCount (fst (handleSendMessage P prov i t usr (c, w))) = turnCount c + 1))"
proof (intro impI conjI allI)
  assume "inProgress c"
  then show "\<exists>rest. messages (fst (handleSendMessage P prov i t usr (c, w)))
               = messages c @ userMessage c # rest"
    by (rule handleSendMessage_appends_user)
next
  fix key
  assume "inProgress c" "turnCount c + 1 < MAX_TURNS" "getAI w = Inr key"
  then show "network (snd (handleSendMessage P prov i t usr (c, w)))
             = network w @ [GenerateChat (buildChatHistory (messages c @ [userMessage c]))]"
    by (rule handleSendMessage_continue_network)
next
  fix reply w1
  assume a: "inProgress c" "turnCount c + 1 < MAX_TURNS"
    "getChatResponse prov (messages c @ [userMessage c]) w = (Inr reply, w1)"
  from handleSendMessage_continue_success [OF a, of P i t usr]
  show "messages (fst (handleSendMessage P prov i t usr (c, w)))
               = messages c @ [userMessage c, \<lparr>sender = AI, text = reply\<rparr>]"
    and "turnCount (fst (handleSendMessage P prov i t usr (c, w))) = turnCount c + 1"
    and "snd (handleSendMessage P prov i t usr (c, w)) = w1"
    by simp_all
next
  fix key
  assume "inProgress c" "turnCount c + 1 = MAX_TURNS" "getAI w = Inr key"
  then show "network (snd (handleSendMessage P prov i t usr (c, w)))
             = network w @ GenerateFinalChat (buildChatHistory (messages c @ [userMessage c])) #
               (case prov (GenerateFinalChat (buildChatHistory (messages c @ [userMessage c]))) of
                  None \<Rightarrow> []
                | Some response \<Rightarrow>
                    [GenerateSummary
                       (messages c @ [userMessage c, \<lparr>sender = AI, text = trim response\<rparr>])])"
    by (rule handleSendMessage_close_network)
next
  fix reply w1
  assume a: "inProgress c" "turnCount c + 1 = MAX_TURNS"
    "getFinalChatResponse prov (messages c @ [userMessage c]) w = (Inr reply, w1)"
  from handleSendMessage_close_success [OF a, of P i t usr]
  show "messages (fst (handleSendMessage P prov i t usr (c, w)))
               = messages c @ [userMessage c, \<lparr>sender = AI, text = reply\<rparr>]"
    and "turnCount (fst (handleSendMessage P prov i t usr (c, w))) = turnCount c + 1"
    by simp_all
qed


lemma example_typing_inProgress: "inProgress (example_typing n)"
  by (simp add: inProgress_def example_typing_def trim_def js_def isWhiteSpace_def)

lemma example_world_key: "getAI example_world = Inr (js ''key'')"
  by (simp add: getAI_def example_world_def js_def)

theorem handleSendMessage_turn_witness:
  "inProgress (example_typing 0) \<and> turnCount (example_typing 0) + 1 < MAX_TURNS
   \<and> inProgress (example_typing 4) \<and> turnCount (example_typing 4) + 1 = MAX_TURNS
   \<and> getAI example_world = Inr (js ''key'')
   \<and> getChatResponse (provider_says (js ''Why? '')) [greeting (js ''Mina''), userMessage (example_typing 0)]
        example_world
       = (Inr (js ''Why?''),
          example_world\<lparr>network :=
            [GenerateChat (buildChatHistory [greeting (js ''Mina''), userMessage (example_typing 0)])]\<rparr>)
   \<and> network (snd (handleSendMessage example_JSON_parse (provider_says (js ''Why? '')) 1 2 example_user
         (example_typing 0, example_world)))
       = [GenerateChat (buildChatHistory [greeting (js ''Mina''), userMessage (example_typing 0)])]
   \<and> messages (fst (handleSendMessage example_JSON_parse (provider_says (js ''Why? '')) 1 2 example_user
         (example_typing 0, example_world)))
       = [greeting (js ''Mina''), \<lparr>sender = USER, text = js ''I am sad''\<rparr>,
          \<lparr>sender = AI, text = js ''Why?''\<rparr>]
   \<and> turnCount (fst (handleSendMessage example_JSON_parse (provider_says (js ''Why? '')) 1 2 example_user
         (example_typing 0, example_world))) = 1
   \<and> network (snd (handleSendMessage example_JSON_parse (provider_says (js ''Bye'')) 1 2 example_user
         (example_typing 4, example_world)))
       = [GenerateFinalChat (buildChatHistory [greeting (js ''Mina''), userMessage (example_typing 4)]),
          GenerateSummary [greeting (js ''Mina''), userMessage (example_typing 4),
                           \<lparr>sender = AI, text = js ''Bye''\<rparr>]]
   \<and> messages (fst (handleSendMessage example_JSON_parse (provider_says (js ''Bye'')) 1 2 example_user
         (example_typing 4, example_world)))
       = [greeting (js ''Mina''), \<lparr>sender = USER, text = js ''I am sad''\<rparr>,
          \<lparr>sender = AI, text = js ''Bye''\<rparr>]
   \<and> turnCount (fst (handleSendMessage example_JSON_parse (provider_says (js ''Bye'')) 1 2 example_user
         (example_typing 4, example_world))) = 5"
proof -
  let ?c0 = "example_typing 0" and ?c4 = "example_typing 4"
  note t0 = handleSendMessage_turn [of ?c0 example_JSON_parse "provider_says (js ''Why? '')" 1 2
      example_user example_world]
  note t4 = handleSendMessage_turn [of ?c4 example_JSON_parse "provider_says (js ''Bye'')" 1 2
      example_user example_world]
  have p0: "inProgress ?c0" and p4: "inProgress ?c4"
    by (rule example_typing_inProgress)+
  have lt: "turnCount ?c0 + 1 < MAX_TURNS" and eq: "turnCount ?c4 + 1 = MAX_TURNS"
    by (simp_all add: example_typing_def MAX_TURNS_def)
  have m0: "messages ?c0 = [greeting (js ''Mina'')]" and m4: "messages ?c4 = [greeting (js ''Mina'')]"
    and n0: "network example_world = []"
    and tc: "turnCount ?c0 = 0" "turnCount ?c4 = 4"
    and um: "userMessage ?c0 = \<lparr>sender = USER, text = js ''I am sad''\<rparr>"
      "userMessage ?c4 = \<lparr>sender = USER, text = js ''I am sad''\<rparr>"
    by (simp_all add: example_typing_def example_world_def userMessage_def)
  have tr: "trim (js ''Why? '') = js ''Why?''" "trim (js ''Bye'') = js ''Bye''"
    by (simp_all add: trim_def js_def isWhiteSpace_def)
  have g0: "getChatResponse (provider_says (js ''Why? '')) [greeting (js ''Mina''), userMessage ?c0]
        example_world
       = (Inr (js ''Why?''),
          example_world\<lparr>network :=
            [GenerateChat (buildChatHistory [greeting (js ''Mina''), userMessage ?c0])]\<rparr>)"
    by (simp add: getChatResponse_key [OF example_world_key] provider_says_def tr n0)
  have g4: "getFinalChatResponse (provider_says (js ''Bye'')) [greeting (js ''Mina''), userMessage ?c4]
        example_world
       = (Inr (js ''Bye''),
          example_world\<lparr>network :=
            [GenerateFinalChat (buildChatHistory [greeting (js ''Mina''), userMessage ?c4])]\<rparr>)"
    by (simp add: getFinalChatResponse_key [OF example_world_key] provider_says_def tr n0)
  from t0 p0 lt example_world_key
  have 1: "network (snd (handleSendMessage example_JSON_parse (provider_says (js ''Why? '')) 1 2 example_user
         (?c0, example_world)))
       = [GenerateChat (buildChatHistory [greeting (js ''Mina''), userMessage ?c0])]"
    by (simp add: m0 n0)
  from t0 p0 lt g0
  have 2: "messages (fst (handleSendMessage example_JSON_parse (provider_says (js ''Why? '')) 1 2 example_user
         (?c0, example_world)))
       = [greeting (js ''Mina''), \<lparr>sender = USER, text = js ''I am sad''\<rparr>,
          \<lparr>sender = AI, text = js ''Why?''\<rparr>]"
    and 3: "turnCount (fst (handleSendMessage example_JSON_parse (provider_says (js ''Why? '')) 1 2 example_user
         (?c0, example_world))) = 1"
    by (simp_all add: m0 um tc)
  from t4 p4 eq example_world_key
  have 4: "network (snd (handleSendMessage example_JSON_parse (provider_says (js ''Bye'')) 1 2 example_user
         (?c4, example_world)))
       = [GenerateFinalChat (buildChatHistory [greeting (js ''Mina''), userMessage ?c4]),
          GenerateSummary [greeting (js ''Mina''), userMessage ?c4, \<lparr>sender = AI, text = js ''Bye''\<rparr>]]"
    by (simp add: m4 n0 provider_says_def tr)
  from t4 p4 eq g4
  have 5: "messages (fst (handleSendMessage example_JSON_parse (provider_says (js ''Bye'')) 1 2 example_user
         (?c4, example_world)))
       = [greeting (js ''Mina''), \<lparr>sender = USER, text = js ''I am sad''\<rparr>,
          \<lparr>sender = AI, text = js ''Bye''\<rparr>]"
    and 6: "turnCount (fst (handleSendMessage example_JSON_parse (provider_says (js ''Bye'')) 1 2 example_user
         (?c4, example_world))) = 5"
    by (simp_all add: m4 um tc)
  from p0 lt p4 eq example_world_key g0 1 2 3 4 5 6 show ?thesis
    by (intro conjI)
qed


text \<open>
  Claim C2, as stated, fails: when the gateway call of the turn fails, the user message
  that was appended before the call stays in the history.
\<close>

theorem handleSendMessage_failure_changes_history:
  "inProgress (example_typing 0)
   \<and> chatCall provider_down (example_typing 0) example_world
       = (Inl ChatResponseError,
          example_world\<lparr>network :=
            [GenerateChat (buildChatHistory [greeting (js ''Mina''), userMessage (example_typing 0)])]\<rparr>)
   \<and> messages (example_typing 0) = [greeting (js ''Mina'')]
   \<and> messages (fst (handleSendMessage example_JSON_parse provider_down 1 2 example_user
         (example_typing 0, example_world)))
       = [greeting (js ''Mina''), \<lparr>sender = USER, text = js ''I am sad''\<rparr>]
   \<and> fst (handleSendMessage example_JSON_parse provider_down 1 2 example_user
         (example_typing 0, example_world)) \<noteq> example_typing 0"
proof -
  have p: "inProgress (example_typing 0)"
    by (rule example_typing_inProgress)
  have n0: "network example_world = []"
    by (simp add: example_world_def)
  have m: "messages (example_typing 0) = [greeting (js ''Mina'')]"
    by (simp add: example_typing_def)
  have call: "chatCall provider_down (example_typing 0) example_world
       = (Inl ChatResponseError,
          example_world\<lparr>network :=
            [GenerateChat (buildChatHistory [greeting (js ''Mina''), userMessage (example_typing 0)])]\<rparr>)"
    by (simp add: chatCall_def getChatResponse_key [OF example_world_key] provider_down_def n0 m
        example_typing_def MAX_TURNS_def)
  have h: "messages (fst (handleSendMessage example_JSON_parse provider_down 1 2 example_user
         (example_typing 0, example_world)))
       = [greeting (js ''Mina''), \<lparr>sender = USER, text = js ''I am sad''\<rparr>]"
    by (simp only: handleSendMessage_chat_failed [OF p call])
      (simp add: m userMessage_def, simp add: example_typing_def)
  from h m have "fst (handleSendMessage example_JSON_parse provider_down 1 2 example_user
         (example_typing 0, example_world)) \<noteq> example_typing 0"
    by auto
  with p call m h show ?thesis by (intro conjI)
qed

text \<open>
  Claim C2, amended. When the gateway call of the turn (continue or close) fails in an
  in-progress conversation, the turn count, the summary and the stored users and
  conversations are as before, the error is recorded, and the conversation is still in
  progress for any non-blank input, so the turn can be sent again. The history is the
  one before the input with the user message appended, and the input field is cleared.
\<close>

theorem handleSendMessage_failed_call:
  "inProgress c \<and> chatCall prov c w = (Inl e, w1) \<longrightarrow>
     handleSendMessage P prov i t usr (c, w)
       = (c\<lparr>error := Some e, messages := messages c @ [userMessage c], userInput := []\<rparr>, w1)
     \<and> turnCount (fst (handleSendMessage P prov i t usr (c, w))) = turnCount c
     \<and> finalSummary (fst (handleSendMessage P prov i t usr (c, w))) = finalSummary c
     \<and> error (fst (handleSendMessage P prov i t usr (c, w))) = Some e
     \<and> conversations (snd (handleSendMessage P prov i t usr (c, w))) = conversations w
     \<and> users (snd (handleSendMessage P prov i t usr (c, w))) = users w
     \<and> (\<forall>v. trim v \<noteq> [] \<longrightarrow>
           inProgress (setUserInput v (fst (handleSendMessage P prov i t usr (c, w)))))"
proof
  assume a: "inProgress c \<and> chatCall prov c w = (Inl e, w1)"
  then have typing: "c\<lparr>isAITyping := False\<rparr> = c"
    by (simp add: inProgress_def)
  from a have "handleSendMessage P prov i t usr (c, w)
       = ((c\<lparr>isAITyping := False\<rparr>)\<lparr>error := Some e, messages := messages c @ [userMessage c],
            userInput := []\<rparr>, w1)"
    by (simp add: handleSendMessage_chat_failed)
  with typing have eq: "handleSendMessage P prov i t usr (c, w)
       = (c\<lparr>error := Some e, messages := messages c @ [userMessage c], userInput := []\<rparr>, w1)"
    by simp
  from a have stores: "conversations w1 = conversations w" "users w1 = users w"
    using chatCall_stores [of prov c w "Inl e" w1] by simp_all
  from a have retry: "\<forall>v. trim v \<noteq> [] \<longrightarrow>
      inProgress (setUserInput v (c\<lparr>error := Some e, messages := messages c @ [userMessage c],
        userInput := []\<rparr>))"
    by (simp add: inProgress_def setUserInput_def)
  from eq stores retry
  show "handleSendMessage P prov i t usr (c, w)
       = (c\<lparr>error := Some e, messages := messages c @ [userMessage c], userInput := []\<rparr>, w1)
     \<and> turnCount (fst (handleSendMessage P prov i t usr (c, w))) = turnCount c
     \<and> finalSummary (fst (handleSendMessage P prov i t usr (c, w))) = finalSummary c
     \<and> error (fst (handleSendMessage P prov i t usr (c, w))) = Some e
     \<and> conversations (snd (handleSendMessage P prov i t usr (c, w))) = conversations w
     \<and> users (snd (handleSendMessage P prov i t usr (c, w))) = users w
     \<and> (\<forall>v. trim v \<noteq> [] \<longrightarrow>
           inProgress (setUserInput v (fst (handleSendMessage P prov i t usr (c, w)))))"
    by simp
qed

theorem handleSendMessage_failed_call_witness:
  "inProgress (example_typing 0)
   \<and> chatCall provider_down (example_typing 0) example_world
       = (Inl ChatResponseError,
          example_world\<lparr>network :=
            [GenerateChat (buildChatHistory [greeting (js ''Mina''), userMessage (example_typing 0)])]\<rparr>)
   \<and> handleSendMessage example_JSON_parse provider_down 1 2 example_user
         (example_typing 0, example_world)
       = ((example_typing 0)\<lparr>error := Some ChatResponseError,
             messages := [greeting (js ''Mina''), \<lparr>sender = USER, text = js ''I am sad''\<rparr>],
             userInput := []\<rparr>,
          example_world\<lparr>network :=
            [GenerateChat (buildChatHistory [greeting (js ''Mina''), userMessage (example_typing 0)])]\<rparr>)
   \<and> turnCount (fst (handleSendMessage example_JSON_parse provider_down 1 2 example_user
         (example_typing 0, example_world))) = 0
   \<and> trim (js ''I am sad'') \<noteq> []
   \<and> inProgress (setUserInput (js ''I am sad'')
         (fst (handleSendMessage example_JSON_parse provider_down 1 2 example_user
            (example_typing 0, example_world))))"
proof -
  let ?w1 = "example_world\<lparr>network :=
            [GenerateChat (buildChatHistory [greeting (js ''Mina''), userMessage (example_typing 0)])]\<rparr>"
  have p: "inProgress (example_typing 0)"
    by (rule example_typing_inProgress)
  have n0: "network example_world = []"
    by (simp add: example_world_def)
  have m: "messages (example_typing 0) = [greeting (js ''Mina'')]"
    and um: "userMessage (example_typing 0) = \<lparr>sender = USER, text = js ''I am sad''\<rparr>"
    and tc: "turnCount (example_typing 0) = 0"
    by (simp_all add: example_typing_def userMessage_def)
  have call: "chatCall provider_down (example_typing 0) example_world = (Inl ChatResponseError, ?w1)"
    by (simp add: chatCall_def getChatResponse_key [OF example_world_key] provider_down_def n0 m
        example_typing_def MAX_TURNS_def)
  have nb: "trim (js ''I am sad'') \<noteq> []"
    by (simp add: trim_def js_def isWhiteSpace_def)
  note spec = handleSendMessage_failed_call [of "example_typing 0" provider_down example_world
      ChatResponseError ?w1 example_JSON_parse 1 2 example_user]
  from spec p call
  have 1: "handleSendMessage example_JSON_parse provider_down 1 2 example_user
         (example_typing 0, example_world)
       = ((example_typing 0)\<lparr>error := Some ChatResponseError,
             messages := [greeting (js ''Mina''), \<lparr>sender = USER, text = js ''I am sad''\<rparr>],
             userInput := []\<rparr>, ?w1)"
    by (simp add: m um)
  from spec p call
  have 2: "turnCount (fst (handleSendMessage example_JSON_parse provider_down 1 2 example_user
         (example_typing 0, example_world))) = 0"
    by (simp add: tc)
  from spec p call nb
  have 3: "inProgress (setUserInput (js ''I am sad'')
         (fst (handleSendMessage example_JSON_parse provider_down 1 2 example_user
            (example_typing 0, example_world))))"
    by blast
  from p call 1 2 nb 3 show ?thesis by (intro conjI)
qed


section \<open>Message histories\<close>

lemma count_sender_append [simp]:
  "count_sender s (ms @ ns) = count_sender s ms + count_sender s ns"
  by (simp add: count_sender_def)

lemma count_sender_Nil [simp]: "count_sender s [] = 0"
  by (simp add: count_sender_def)

lemma count_sender_Cons [simp]:
  "count_sender s (m # ms) = (if sender m = s then 1 else 0) + count_sender s ms"
  by (simp add: count_sender_def)

lemma length_count_sender: "length ms = count_sender AI ms + count_sender USER ms"
proof (induction ms)
  case Nil
  then show ?case by simp
next
  case (Cons m ms)
  then show ?case by (cases "sender m") simp_all
qed

lemma turn_pairs_snoc:
  "turn_pairs (ms @ [m]) =
     turn_pairs ms + (if ms \<noteq> [] \<and> sender (last ms) = USER \<and> sender m = AI then 1 else 0)"
  by (induction ms rule: turn_pairs.induct) auto

lemma no_adjacent_ai_snoc:
  "no_adjacent_ai (ms @ [m]) \<longleftrightarrow>
     no_adjacent_ai ms \<and> \<not> (ms \<noteq> [] \<and> sender (last ms) = AI \<and> sender m = AI)"
  by (induction ms rule: no_adjacent_ai.induct) auto

lemma alternates_turn:
  "alternates s ms \<Longrightarrow> ms \<noteq> [] \<Longrightarrow> sender (last ms) = AI \<Longrightarrow> sender u = USER \<Longrightarrow> sender a = AI
     \<Longrightarrow> alternates s (ms @ [u, a])"
proof (induction ms arbitrary: s)
  case Nil
  then show ?case by simp
next
  case (Cons m ms)
  show ?case
  proof (cases "ms = []")
    case True
    with Cons.prems show ?thesis by auto
  next
    case False
    with Cons.prems have "alternates (if s = USER then AI else USER) (ms @ [u, a])"
      by (intro Cons.IH) auto
    with Cons.prems show ?thesis by simp
  qed
qed

lemma turn_pairs_turn:
  "sender u = USER \<Longrightarrow> sender a = AI \<Longrightarrow> turn_pairs (ms @ [u, a]) = turn_pairs ms + 1"
proof -
  assume u: "sender u = USER" and a: "sender a = AI"
  have "turn_pairs ((ms @ [u]) @ [a]) = turn_pairs (ms @ [u]) + 1"
    using u a by (subst turn_pairs_snoc) simp
  also have "turn_pairs (ms @ [u]) = turn_pairs ms"
    using u by (subst turn_pairs_snoc) simp
  finally show ?thesis by simp
qed

lemma no_adjacent_ai_turn:
  "sender u = USER \<Longrightarrow> sender a = AI \<Longrightarrow> no_adjacent_ai ms \<Longrightarrow> no_adjacent_ai (ms @ [u, a])"
proof -
  assume u: "sender u = USER" and a: "sender a = AI" and ms: "no_adjacent_ai ms"
  from u ms have "no_adjacent_ai (ms @ [u])"
    by (simp add: no_adjacent_ai_snoc)
  with u have "no_adjacent_ai ((ms @ [u]) @ [a])"
    by (subst no_adjacent_ai_snoc) simp
  then show ?thesis by simp
qed


section \<open>The invariant of a chat session\<close>

lemma saveConversation_cong:
  assumes "conversations w2 = conversations w0" and "saveConversation n conv w2 = Inr w3"
  shows "\<exists>w'. saveConversation n conv w0 = Inr w' \<and> conversations w3 = conversations w'"
  using assms
  by (auto simp: saveConversation_def split: option.splits if_splits)

lemma written_userInput [simp]: "written usr w0 (c\<lparr>userInput := v\<rparr>) w = written usr w0 c w"
  by (simp add: written_def)

lemma chat_inv_initial: "chat_inv usr w0 0 (initialChatView usr, w0)"
  by (simp add: chat_inv_def initialChatView_def greeting_def MAX_TURNS_def)

lemma chat_inv_setUserInput:
  "chat_inv usr w0 k (c, w) \<Longrightarrow> chat_inv usr w0 k (setUserInput v c, w)"
  by (cases "isAITyping c \<or> isConversationOver c") (simp_all add: setUserInput_def chat_inv_def)

lemma sender_userMessage [simp]: "sender (userMessage c) = USER"
  by (simp add: userMessage_def)

lemma chat_inv_step:
  assumes inv: "chat_inv usr w0 k (c, w)"
  shows "chat_inv usr w0 (k + (if inProgress c \<and> isl (fst (chatCall prov c w)) then 1 else 0))
           (handleSendMessage P prov i t usr (c, w))"
proof (cases "inProgress c")
  case False
  with inv show ?thesis
    by (simp add: handleSendMessage_blocked)
next
  case True
  obtain r w1 where call: "chatCall prov c w = (r, w1)"
    by (cases "chatCall prov c w")
  note st1 = chatCall_stores [OF call]
  from True have open_: "\<not> isConversationOver c" "\<not> isAITyping c"
    by (simp_all add: inProgress_def)
  with inv have lt: "turnCount c < MAX_TURNS"
    by (simp add: chat_inv_def)
  with inv have none: "finalSummary c = None" and same: "conversations w = conversations w0"
    by (simp_all add: chat_inv_def)
  from inv have shape: "messages c \<noteq> []" "hd (messages c) = greeting (name usr)"
    "count_sender AI (messages c) = turnCount c + 1"
    "count_sender USER (messages c) = turnCount c + k"
    "turn_pairs (messages c) = turnCount c" "no_adjacent_ai (messages c)"
    "users w = users w0"
    by (simp_all add: chat_inv_def)
  from inv open_ have lastai: "k = 0 \<Longrightarrow> sender (last (messages c)) = AI"
    and alt0: "k = 0 \<Longrightarrow> alternates AI (messages c)"
    by (simp_all add: chat_inv_def)
  have um: "sender (userMessage c) = USER"
    by (simp add: userMessage_def)
  show ?thesis
  proof (cases r)
    case (Inl e)
    with True call have eq: "handleSendMessage P prov i t usr (c, w) =
        (c\<lparr>error := Some e, messages := messages c @ [userMessage c], userInput := [],
           isAITyping := False\<rparr>, w1)"
      by (simp add: handleSendMessage_chat_failed)
    from open_ lt none same shape st1 um show ?thesis
      unfolding eq using True call Inl
      by (simp add: chat_inv_def turn_pairs_snoc no_adjacent_ai_snoc)
  next
    case (Inr reply)
    let ?h = "messages c @ [userMessage c, \<lparr>sender = AI, text = reply\<rparr>]"
    have am: "sender \<lparr>sender = AI, text = reply\<rparr> = AI" by simp
    note tp = turn_pairs_turn [OF um am, of "messages c"]
    from call Inr have call': "chatCall prov c w = (Inr reply, w1)"
      by simp
    have isl: "\<not> isl (fst (chatCall prov c w))"
      using call Inr by simp
    have alt: "alternates AI ?h" if "k = 0"
      using alt0 [OF that] shape(1) lastai [OF that] um am by (rule alternates_turn)
    have naa: "no_adjacent_ai ?h"
      using um am shape(6) by (rule no_adjacent_ai_turn)
    show ?thesis
    proof (cases "turnCount c + 1 < MAX_TURNS")
      case lt': True
      with True call' have eq: "handleSendMessage P prov i t usr (c, w) =
          (c\<lparr>error := None, userInput := [], messages := ?h,
             turnCount := turnCount c + 1, isAITyping := False\<rparr>, w1)"
        by (simp add: handleSendMessage_continued)
      from open_ none same shape st1 lt' tp naa alt show ?thesis
        unfolding eq using isl
        by (simp add: chat_inv_def)
    next
      case False
      with lt have last_turn: "turnCount c + 1 = MAX_TURNS" and ge: "MAX_TURNS \<le> turnCount c + 1"
        by simp_all
      obtain s w2 where summ: "getFinalSummary P prov ?h w1 = (s, w2)"
        by (cases "getFinalSummary P prov ?h w1")
      note st2 = getFinalSummary_stores [OF summ]
      from same st1 st2 have same2: "conversations w2 = conversations w0"
        by simp
      show ?thesis
      proof (cases s)
        case (Inl e)
        with True call' ge summ
        have eq: "handleSendMessage P prov i t usr (c, w) =
            (c\<lparr>error := Some e, userInput := [], messages := ?h,
               turnCount := turnCount c + 1, isConversationOver := True, isAITyping := False\<rparr>, w2)"
          by (simp add: handleSendMessage_summary_failed)
        from open_ none same2 shape st1 st2 last_turn tp naa alt show ?thesis
          unfolding eq using isl
          by (simp add: chat_inv_def)
      next
        case (Inr fs)
        let ?conv = "\<lparr>conv_id = js ''conv_'' @ toString i, timestamp = t,
              conv_messages = ?h, summary = fs\<rparr>"
        from summ Inr have summ': "getFinalSummary P prov ?h w1 = (Inr fs, w2)"
          by simp
        show ?thesis
        proof (cases "saveConversation (name usr) ?conv w2")
          case failed: (Inl e)
          from handleSendMessage_save_failed [OF True call' ge summ' failed]
          have eq: "handleSendMessage P prov i t usr (c, w) =
              (c\<lparr>error := Some e, userInput := [], messages := ?h,
                 turnCount := turnCount c + 1, isConversationOver := True,
                 finalSummary := nullable fs, isAITyping := False\<rparr>, w2)" .
          from open_ same2 shape st1 st2 last_turn tp naa alt show ?thesis
            unfolding eq using isl
            by (simp add: chat_inv_def)
        next
          case saved: (Inr w3)
          let ?c' = "c\<lparr>error := None, userInput := [], messages := ?h,
                 turnCount := turnCount c + 1, isConversationOver := True,
                 finalSummary := nullable fs, isAITyping := False\<rparr>"
          from handleSendMessage_saved [OF True call' ge summ' saved]
          have eq: "handleSendMessage P prov i t usr (c, w) = (?c', w3)" .
          from saveConversation_cong [OF same2 saved] obtain w' where
            w': "saveConversation (name usr) ?conv w0 = Inr w'"
              "conversations w3 = conversations w'"
            by blast
          have wr: "written usr w0 ?c' w3"
            unfolding written_def
          proof (intro exI conjI)
            show "finalSummary ?c' = nullable fs" by simp
            show "saveConversation (name usr)
                \<lparr>conv_id = js ''conv_'' @ toString i, timestamp = t,
                 conv_messages = messages ?c', summary = fs\<rparr> w0 = Inr w'"
              using w'(1) by simp
            show "conversations w3 = conversations w'" by (rule w'(2))
          qed
          from saveConversation_stores(2) [OF saved] shape(7) st1 st2
          have users3: "users w3 = users w0"
            by simp
          from open_ shape users3 last_turn tp naa alt wr show ?thesis
            unfolding eq using isl
            by (simp add: chat_inv_def)
        qed
      qed
    qed
  qed
qed

lemma chat_inv_send:
  assumes "chat_inv usr w0 k cw"
  shows "chat_inv usr w0 (k + (if send_failed cw ev then 1 else 0)) (send P usr cw ev)"
proof -
  obtain c w where cw: "cw = (c, w)" by (cases cw)
  with assms have "chat_inv usr w0 k (setUserInput (typed ev) c, w)"
    by (simp add: chat_inv_setUserInput)
  from chat_inv_step [OF this, of "answers ev" P "now_id ev" "now_ts ev"]
  show ?thesis
    by (simp add: cw send_def send_failed_def Let_def)
qed

lemma chat_inv_foldl:
  "chat_inv usr w0 k cw \<Longrightarrow>
     chat_inv usr w0 (k + failed_sends P usr cw evs) (foldl (send P usr) cw evs)"
proof (induction evs arbitrary: k cw)
  case Nil
  then show ?case by simp
next
  case (Cons ev evs)
  from Cons.prems have "chat_inv usr w0 (k + (if send_failed cw ev then 1 else 0)) (send P usr cw ev)"
    by (rule chat_inv_send)
  from Cons.IH [OF this] show ?case
    by (simp add: add.assoc)
qed

lemma chat_inv_session:
  "chat_inv usr w0 (failed_sends P usr (initialChatView usr, w0) evs) (session P usr evs w0)"
  using chat_inv_foldl [OF chat_inv_initial, of usr w0 P evs] by (simp add: session_def)

section \<open>What a session persists\<close>

lemmas session_eval =
  session_def send_def setUserInput_def handleSendMessage_def initialChatView_def
  example_send_def provider_says_def provider_down_def provider_no_summary_def provider_ok_def
  provider_null_summary_def example_world_def example_user_def example_joon_def
  example_JSON_parse_def example_summary_text_def FinalSummary_of_def nullable_def
  getChatResponse_def getFinalChatResponse_def getFinalSummary_def getAI_def generateContent_def
  saveConversation_def Object_prototype_properties_def MAX_TURNS_def Let_def trim_def
  isWhiteSpace_def js_def buildChatHistory_def greeting_def

lemma chat_inv_over:
  "chat_inv usr w0 k (c, w) \<Longrightarrow> isConversationOver c \<longleftrightarrow> turnCount c = MAX_TURNS"
  by (simp add: chat_inv_def)

lemma chat_inv_counts:
  assumes "chat_inv usr w0 k (c, w)"
  shows "count_sender AI (messages c) = turnCount c + 1"
    and "count_sender USER (messages c) = turnCount c + k"
    and "turn_pairs (messages c) = turnCount c"
    and "turnCount c \<le> MAX_TURNS"
  using assms by (simp_all add: chat_inv_def)

lemma chat_inv_shape:
  assumes "chat_inv usr w0 k (c, w)"
  shows "messages c \<noteq> []" and "hd (messages c) = greeting (name usr)"
    and "no_adjacent_ai (messages c)"
    and "k = 0 \<Longrightarrow> alternates AI (messages c)"
    and "isConversationOver c \<Longrightarrow> sender (last (messages c)) = AI"
  using assms by (simp_all add: chat_inv_def)

lemma chat_inv_open:
  assumes "chat_inv usr w0 k (c, w)" and "turnCount c < MAX_TURNS"
  shows "finalSummary c = None" and "conversations w = conversations w0"
  using assms by (simp_all add: chat_inv_def)

lemma chat_inv_written:
  assumes "chat_inv usr w0 k (c, w)"
  shows "conversations w = conversations w0 \<or> written usr w0 c w"
    and "turnCount c = MAX_TURNS \<Longrightarrow> error c \<noteq> None \<or> written usr w0 c w"
proof -
  from assms have both: "(conversations w = conversations w0 \<or> written usr w0 c w)
      \<and> (turnCount c = MAX_TURNS \<longrightarrow> error c \<noteq> None \<or> written usr w0 c w)"
    unfolding chat_inv_def prod.case by (elim conjE) (intro conjI)
  then show "conversations w = conversations w0 \<or> written usr w0 c w"
    by (rule conjunct1)
  from both have "turnCount c = MAX_TURNS \<longrightarrow> error c \<noteq> None \<or> written usr w0 c w"
    by (rule conjunct2)
  moreover assume "turnCount c = MAX_TURNS"
  ultimately show "error c \<noteq> None \<or> written usr w0 c w"
    by (rule mp)
qed

lemma chat_inv_changed:
  assumes inv: "chat_inv usr w0 k (c, w)" and changed: "conversations w \<noteq> conversations w0"
  shows "turnCount c = MAX_TURNS" and "isConversationOver c" and "written usr w0 c w"
proof -
  from chat_inv_open(2) [OF inv] changed have "\<not> turnCount c < MAX_TURNS"
    by blast
  with chat_inv_counts(4) [OF inv] show limit: "turnCount c = MAX_TURNS"
    by simp
  with chat_inv_over [OF inv] show "isConversationOver c"
    by simp
  from chat_inv_written(1) [OF inv] changed show "written usr w0 c w"
    by blast
qed

lemma values_update_append:
  "(\<Union>kv\<in>set (AList.update k ((case map_of al k of None \<Rightarrow> [] | Some vs \<Rightarrow> vs) @ [v]) al).
       set (snd kv))
     = insert v (\<Union>kv\<in>set al. set (snd kv))"
proof (induction al)
  case Nil
  then show ?case by simp
next
  case (Cons a al)
  obtain k' vs where a: "a = (k', vs)" by (cases a)
  show ?case
  proof (cases "k' = k")
    case True
    with a show ?thesis by auto
  next
    case False
    with a Cons.IH show ?thesis by auto
  qed
qed

lemma all_conversations_saveConversation:
  assumes "saveConversation n conv w = Inr w'"
  shows "set (all_conversations w')
    = insert (conv\<lparr>summary := stored (summary conv)\<rparr>) (set (all_conversations w))"
proof -
  let ?conv = "conv\<lparr>summary := stored (summary conv)\<rparr>"
  from assms have "conversations w' =
      AList.update n ((case map_of (conversations w) n of None \<Rightarrow> [] | Some vs \<Rightarrow> vs) @ [?conv])
        (conversations w)"
    by (auto simp: saveConversation_def split: option.splits if_splits)
  with values_update_append [of n "conversations w" ?conv] show ?thesis
    by (simp add: all_conversations_def)
qed

lemma all_conversations_cong:
  "conversations w = conversations w' \<Longrightarrow> all_conversations w = all_conversations w'"
  by (simp add: all_conversations_def)

text \<open>
  What a session that has written added to the store: one conversation, whose messages
  are the history of the view.
\<close>

lemma all_conversations_written:
  assumes "written usr w0 c w"
  shows "\<exists>conv. conv_messages conv = messages c
    \<and> set (all_conversations w) = insert conv (set (all_conversations w0))"
proof -
  from assms obtain i t s w' where
    saved: "saveConversation (name usr)
       \<lparr>conv_id = i, timestamp = t, conv_messages = messages c, summary = s\<rparr> w0 = Inr w'"
    and w': "conversations w = conversations w'"
    unfolding written_def by blast
  let ?conv = "\<lparr>conv_id = i, timestamp = t, conv_messages = messages c, summary = stored s\<rparr>"
  from all_conversations_saveConversation [OF saved]
  have "set (all_conversations w') = insert ?conv (set (all_conversations w0))"
    by simp
  with all_conversations_cong [OF w']
  have "set (all_conversations w) = insert ?conv (set (all_conversations w0))"
    by simp
  moreover have "conv_messages ?conv = messages c" by simp
  ultimately show ?thesis by blast
qed




lemma example_session_saved:
  "map (\<lambda>conv. map sender (conv_messages conv))
     (all_conversations (snd (session example_JSON_parse example_user example_session example_world)))
     = [[AI, USER, AI, USER, AI, USER, AI, USER, AI, USER, AI]]"
  by (simp add: example_session_def all_conversations_def session_eval)

lemma example_session_stored:
  "conversations (snd (session example_JSON_parse example_user example_session example_world)) \<noteq> []"
  by (simp add: example_session_def session_eval)



text \<open>
  An account whose name is a property of \<open>Object.prototype\<close>: the summary arrives and
  is shown, \<open>saveConversation\<close> throws, and nothing is stored.
\<close>

lemma example_constructor_not_saved:
  "Complete (fst (session example_JSON_parse example_constructor example_session example_world))
   \<and> error (fst (session example_JSON_parse example_constructor example_session example_world))
       = Some TypeError
   \<and> turnCount (fst (session example_JSON_parse example_constructor example_session example_world))
       = MAX_TURNS
   \<and> conversations (snd (session example_JSON_parse example_constructor example_session example_world))
       = []"
proof -
  let ?s = "session example_JSON_parse example_constructor example_session example_world"
  have 1: "finalSummary (fst ?s) = Some (FinalSummary_of (js ''calm'') (js ''Well done''))"
    by (simp add: example_session_def example_constructor_def session_eval)
  have 2: "error (fst ?s) = Some TypeError"
    by (simp add: example_session_def example_constructor_def session_eval)
  have 3: "turnCount (fst ?s) = MAX_TURNS"
    by (simp add: example_session_def example_constructor_def session_eval)
  have 4: "conversations (snd ?s) = []"
    by (simp add: example_session_def example_constructor_def session_eval)
  from 1 have "Complete (fst ?s)"
    by (simp add: Complete_def FinalSummary_of_def)
  with 2 3 4 show ?thesis
    by (intro conjI)
qed

section \<open>After the closing turn\<close>

lemma send_over: "isConversationOver c \<Longrightarrow> send P usr (c, w) ev = (c, w)"
  by (simp add: send_def setUserInput_def handleSendMessage_blocked inProgress_def)

lemma foldl_send_over:
  "isConversationOver c \<Longrightarrow> foldl (send P usr) (c, w) evs = (c, w)"
  by (induction evs) (simp_all add: send_over)

lemma session_append:
  "session P usr (evs @ evs') w = foldl (send P usr) (session P usr evs w) evs'"
  by (simp add: session_def)

text \<open>
  Claim C3 on the code: the provider answers the five turns and fails on the summary.
  The error is shown, but \<open>isConversationOver\<close> was set before the summary was asked
  for, so the guard of \<open>handleSendMessage\<close> ignores every later input: whatever is sent
  afterwards, the summary is never asked for again and nothing is persisted.
\<close>

theorem summary_failure_blocks_retry:
  "turnCount (fst (session example_JSON_parse example_user example_session_no_summary example_world))
     = MAX_TURNS
   \<and> error (fst (session example_JSON_parse example_user example_session_no_summary example_world))
     = Some FinalSummaryError
   \<and> finalSummary (fst (session example_JSON_parse example_user example_session_no_summary example_world))
     = None
   \<and> isConversationOver
       (fst (session example_JSON_parse example_user example_session_no_summary example_world))
   \<and> conversations (snd (session example_JSON_parse example_user example_session_no_summary example_world))
     = []
   \<and> (\<forall>evs. session example_JSON_parse example_user (example_session_no_summary @ evs) example_world
         = session example_JSON_parse example_user example_session_no_summary example_world)"
proof -
  let ?s = "session example_JSON_parse example_user example_session_no_summary example_world"
  have 1: "turnCount (fst ?s) = MAX_TURNS"
    and 2: "error (fst ?s) = Some FinalSummaryError"
    and 3: "finalSummary (fst ?s) = None"
    and 4: "isConversationOver (fst ?s)"
    and 5: "conversations (snd ?s) = []"
    by (simp_all add: example_session_no_summary_def session_eval)
  have 6: "session example_JSON_parse example_user (example_session_no_summary @ evs) example_world = ?s"
    for evs
    using foldl_send_over [OF 4, of example_JSON_parse example_user "snd ?s" evs]
    by (simp add: session_append)
  from 1 2 3 4 5 6 show ?thesis by (intro conjI allI)
qed


section \<open>The shape of a persisted history\<close>

text \<open>
  Claim C10, as stated, fails: a send whose gateway call failed leaves its user message
  in the history, and the conversation persisted at the end has twelve messages, two
  user messages in a row.
\<close>

theorem persisted_history_with_failed_send:
  "map (map sender \<circ> conv_messages)
     (all_conversations (snd (session example_JSON_parse example_user
        (example_send provider_down # example_session) example_world)))
     = [[AI, USER, USER, AI, USER, AI, USER, AI, USER, AI, USER, AI]]
   \<and> map (length \<circ> conv_messages)
     (all_conversations (snd (session example_JSON_parse example_user
        (example_send provider_down # example_session) example_world)))
     = [12]"
  by (simp add: example_session_def all_conversations_def session_eval)

text \<open>
  Claim C10, amended. When a session has changed the store of conversations, it has
  added one conversation, by one call of \<open>saveConversation\<close> under the account name,
  and the messages of that conversation are the history of the view: the greeting of the
  coach first, a message of the coach last, \<open>MAX_TURNS + 1\<close> messages of the coach, no
  two of them adjacent, and \<open>MAX_TURNS\<close> user messages plus one for every failed send,
  \<open>2 * MAX_TURNS + 1\<close> entries plus one for every failed send in all. When no send
  failed, the history alternates between the coach and the user. So a store of
  well-formed histories stays such a store.
\<close>

theorem persisted_history_shape:
  "(conversations (snd (session P usr evs w0)) \<noteq> conversations w0 \<longrightarrow>
      written usr w0 (fst (session P usr evs w0)) (snd (session P usr evs w0))
      \<and> (\<exists>conv. conv_messages conv = messages (fst (session P usr evs w0))
            \<and> set (all_conversations (snd (session P usr evs w0)))
                = insert conv (set (all_conversations w0)))
      \<and> hd (messages (fst (session P usr evs w0))) = greeting (name usr)
      \<and> sender (last (messages (fst (session P usr evs w0)))) = AI
      \<and> count_sender AI (messages (fst (session P usr evs w0))) = MAX_TURNS + 1
      \<and> count_sender USER (messages (fst (session P usr evs w0)))
          = MAX_TURNS + failed_sends P usr (initialChatView usr, w0) evs
      \<and> length (messages (fst (session P usr evs w0)))
          = 2 * MAX_TURNS + 1 + failed_sends P usr (initialChatView usr, w0) evs
      \<and> no_adjacent_ai (messages (fst (session P usr evs w0)))
      \<and> (failed_sends P usr (initialChatView usr, w0) evs = 0 \<longrightarrow>
            alternates AI (messages (fst (session P usr evs w0)))))
   \<and> ((\<forall>conv\<in>set (all_conversations w0). well_formed_history (conv_messages conv)) \<longrightarrow>
        (\<forall>conv\<in>set (all_conversations (snd (session P usr evs w0))).
           well_formed_history (conv_messages conv)))"
proof -
  obtain c w where cw: "session P usr evs w0 = (c, w)"
    by (cases "session P usr evs w0")
  let ?k = "failed_sends P usr (initialChatView usr, w0) evs"
  from chat_inv_session [of usr w0 P evs] cw have inv: "chat_inv usr w0 ?k (c, w)"
    by simp
  note counts = chat_inv_counts [OF inv] and shape = chat_inv_shape [OF inv]
  have alt: "?k = 0 \<longrightarrow> alternates AI (messages c)"
    using shape(4) by (intro impI)
  have A: "written usr w0 c w
      \<and> (\<exists>conv. conv_messages conv = messages c
            \<and> set (all_conversations w) = insert conv (set (all_conversations w0)))
      \<and> hd (messages c) = greeting (name usr)
      \<and> sender (last (messages c)) = AI
      \<and> count_sender AI (messages c) = MAX_TURNS + 1
      \<and> count_sender USER (messages c) = MAX_TURNS + ?k
      \<and> length (messages c) = 2 * MAX_TURNS + 1 + ?k
      \<and> no_adjacent_ai (messages c)
      \<and> (?k = 0 \<longrightarrow> alternates AI (messages c))"
    if changed: "conversations w \<noteq> conversations w0"
  proof -
    note ch = chat_inv_changed [OF inv changed]
    from counts(1) ch(1) have ai: "count_sender AI (messages c) = MAX_TURNS + 1"
      by simp
    from counts(2) ch(1) have us: "count_sender USER (messages c) = MAX_TURNS + ?k"
      by simp
    from ai us have len: "length (messages c) = 2 * MAX_TURNS + 1 + ?k"
      by (simp add: length_count_sender)
    from ch(2) have lst: "sender (last (messages c)) = AI"
      by (rule shape(5))
    from ch(3) all_conversations_written [OF ch(3)] shape(2) lst ai us len shape(3) alt
    show ?thesis
      by (intro conjI)
  qed
  have B: "\<forall>conv\<in>set (all_conversations w). well_formed_history (conv_messages conv)"
    if old: "\<forall>conv\<in>set (all_conversations w0). well_formed_history (conv_messages conv)"
  proof (cases "conversations w = conversations w0")
    case True
    then have "all_conversations w = all_conversations w0"
      by (rule all_conversations_cong)
    with old show ?thesis by simp
  next
    case False
    from A [OF False] obtain conv where
      conv: "conv_messages conv = messages c"
        "set (all_conversations w) = insert conv (set (all_conversations w0))"
      and lst: "sender (last (messages c)) = AI"
      and ai: "count_sender AI (messages c) = MAX_TURNS + 1"
      and us: "count_sender USER (messages c) = MAX_TURNS + ?k"
      and len: "length (messages c) = 2 * MAX_TURNS + 1 + ?k"
      by blast
    from shape(2) have hdai: "sender (hd (messages c)) = AI"
      by (simp add: greeting_def)
    have alt': "length (messages c) = 2 * MAX_TURNS + 1 \<longrightarrow> alternates AI (messages c)"
    proof
      assume "length (messages c) = 2 * MAX_TURNS + 1"
      with len have k0: "?k = 0" by simp
      from alt k0 show "alternates AI (messages c)" by (rule mp)
    qed
    have us': "MAX_TURNS \<le> count_sender USER (messages c)"
      unfolding us by simp
    from shape(1) hdai lst ai us' shape(3) alt'
    have wf: "well_formed_history (messages c)"
      unfolding well_formed_history_def by (intro conjI)
    with old conv show ?thesis by simp
  qed
  show ?thesis
    unfolding cw fst_conv snd_conv
  proof (intro conjI)
    show "conversations w \<noteq> conversations w0 \<longrightarrow>
      written usr w0 c w
      \<and> (\<exists>conv. conv_messages conv = messages c
            \<and> set (all_conversations w) = insert conv (set (all_conversations w0)))
      \<and> hd (messages c) = greeting (name usr)
      \<and> sender (last (messages c)) = AI
      \<and> count_sender AI (messages c) = MAX_TURNS + 1
      \<and> count_sender USER (messages c) = MAX_TURNS + ?k
      \<and> length (messages c) = 2 * MAX_TURNS + 1 + ?k
      \<and> no_adjacent_ai (messages c)
      \<and> (?k = 0 \<longrightarrow> alternates AI (messages c))"
      using A by (intro impI)
    show "(\<forall>conv\<in>set (all_conversations w0). well_formed_history (conv_messages conv)) \<longrightarrow>
        (\<forall>conv\<in>set (all_conversations w). well_formed_history (conv_messages conv))"
      using B by (intro impI)
  qed
qed

lemmas failed_sends_eval = send_failed_def chatCall_def inProgress_def userMessage_def

lemma example_session_failed_sends:
  "failed_sends example_JSON_parse example_user (initialChatView example_user, example_world)
     example_session = 0"
  by (simp add: example_session_def failed_sends_eval session_eval)

lemma example_session_failed_sends':
  "failed_sends example_JSON_parse example_user (initialChatView example_user, example_world)
     (example_send provider_down # example_session) = 1"
  by (simp add: example_session_def failed_sends_eval session_eval)

lemma example_session_stored':
  "conversations (snd (session example_JSON_parse example_user
      (example_send provider_down # example_session) example_world)) \<noteq> []"
  by (simp add: example_session_def session_eval)

theorem persisted_history_shape_witness:
  "conversations (snd (session example_JSON_parse example_user example_session example_world))
     \<noteq> conversations example_world
   \<and> failed_sends example_JSON_parse example_user (initialChatView example_user, example_world)
        example_session = 0
   \<and> length (messages (fst (session example_JSON_parse example_user example_session example_world)))
        = 11
   \<and> alternates AI (messages (fst (session example_JSON_parse example_user example_session example_world)))
   \<and> conversations (snd (session example_JSON_parse example_user
        (example_send provider_down # example_session) example_world))
     \<noteq> conversations example_world
   \<and> failed_sends example_JSON_parse example_user (initialChatView example_user, example_world)
        (example_send provider_down # example_session) = 1
   \<and> length (messages (fst (session example_JSON_parse example_user
        (example_send provider_down # example_session) example_world))) = 12
   \<and> count_sender AI (messages (fst (session example_JSON_parse example_user
        (example_send provider_down # example_session) example_world))) = 6
   \<and> all_conversations example_world = []
   \<and> all_conversations (snd (session example_JSON_parse example_user example_session example_world)) \<noteq> []
   \<and> list_all (\<lambda>conv. well_formed_history (conv_messages conv))
        (all_conversations (snd (session example_JSON_parse example_user example_session example_world)))
   \<and> list_all (\<lambda>conv. well_formed_history (conv_messages conv))
        (all_conversations (snd (session example_JSON_parse example_joon
           (example_send provider_down # example_session)
           (snd (session example_JSON_parse example_user example_session example_world)))))"
proof -
  let ?w1 = "snd (session example_JSON_parse example_user example_session example_world)"
  note ok = persisted_history_shape [of example_JSON_parse example_user example_session example_world]
  note failed = persisted_history_shape [of example_JSON_parse example_user
      "example_send provider_down # example_session" example_world]
  note later = persisted_history_shape [of example_JSON_parse example_joon
      "example_send provider_down # example_session" ?w1]
  have empty: "all_conversations example_world = []"
    by (simp add: all_conversations_def example_world_def)
  then have old: "\<forall>conv\<in>set (all_conversations example_world).
      well_formed_history (conv_messages conv)"
    by simp
  have saved: "all_conversations ?w1 \<noteq> []"
    using example_session_saved by auto
  from example_session_stored
  have changed: "conversations ?w1 \<noteq> conversations example_world"
    by (simp add: example_world_def)
  from example_session_stored'
  have changed': "conversations (snd (session example_JSON_parse example_user
        (example_send provider_down # example_session) example_world))
     \<noteq> conversations example_world"
    by (simp add: example_world_def)
  from ok changed example_session_failed_sends
  have 1: "length (messages (fst (session example_JSON_parse example_user example_session example_world)))
        = 11"
    and 2: "alternates AI (messages (fst (session example_JSON_parse example_user example_session example_world)))"
    by (simp_all add: MAX_TURNS_def)
  from failed changed' example_session_failed_sends'
  have 3: "length (messages (fst (session example_JSON_parse example_user
        (example_send provider_down # example_session) example_world))) = 12"
    and 4: "count_sender AI (messages (fst (session example_JSON_parse example_user
        (example_send provider_down # example_session) example_world))) = 6"
    by (simp_all add: MAX_TURNS_def)
  from ok old
  have 5: "\<forall>conv\<in>set (all_conversations ?w1). well_formed_history (conv_messages conv)"
    by blast
  with later
  have 6: "\<forall>conv\<in>set (all_conversations (snd (session example_JSON_parse example_joon
           (example_send provider_down # example_session) ?w1))).
      well_formed_history (conv_messages conv)"
    by blast
  from 5 have all2: "list_all (\<lambda>conv. well_formed_history (conv_messages conv)) (all_conversations ?w1)"
    by (simp add: list_all_iff)
  from 6 have all3: "list_all (\<lambda>conv. well_formed_history (conv_messages conv))
        (all_conversations (snd (session example_JSON_parse example_joon
           (example_send provider_down # example_session) ?w1)))"
    by (simp add: list_all_iff)
  from changed example_session_failed_sends 1 2 changed' example_session_failed_sends' 3 4
    empty saved all2 all3
  show ?thesis by (intro conjI)
qed

section \<open>The mood dashboard\<close>

























end
